theory Spec2Isabelle
  imports Complex_Main
begin

section \<open>Data of the hook \<open>useLiveAPI\<close>\<close>

text \<open>
  \<open>src/hooks/useLiveAPI.ts\<close> holds three variants of the hook: the control-message
  variant (lines 1-373, suffix \<open>1\<close> below), the mute variant (lines 374-684, suffix
  \<open>2\<close>) and the speed variant (lines 685-967, suffix \<open>3\<close>). They share the refs
  modelled by the record \<open>hook\<close>; a variant that has no such ref never touches
  the field.

  Times are values of the output \<open>AudioContext\<close> clock: JavaScript numbers, here
  the reals they denote. The handlers compute with them in exact arithmetic, except
  where a property depends on the rounding of JavaScript: for the schedule of the
  segments the handlers are given with that rounding as well (section
  \<open>JavaScript numbers\<close>). Every handler runs to completion on the single event loop; the value of
  \<open>ctx.currentTime\<close> it reads is the argument \<open>now\<close>. \<open>onmessage\<close> is
  suspended at the \<open>await\<close> of \<open>decodeAudioData\<close>: as a step of a run it is
  taken to resume before any other handler runs; its two halves (\<open>prepare\<close> before
  the \<open>await\<close>, \<open>resume\<close> after it) are given apart as well, for the case that
  another handler runs in between.

  A run of events covers one session: it starts in the state that \<open>connect\<close>
  and \<open>onopen\<close> leave and may end with \<open>cleanup\<close>. \<open>connect\<close> and
  \<open>onclose\<close> are not events of a run; they are given as operations of their own
  (\<open>connect1\<close>, \<open>connect2\<close>, \<open>onclose\<close>), to follow the hook from one
  session into the next.
\<close>

text \<open>
  An \<open>AudioBufferSourceNode\<close>: the instant given to \<open>source.start\<close>, the duration of
  its buffer, \<open>playbackRate.value\<close> (1 unless set), and the instant of
  \<open>source.stop()\<close> if it was called.
\<close>

record source =
  startAt :: real
  duration :: real
  playbackRate :: real
  stoppedAt :: "real option"

text \<open>
  \<open>message.serverContent?.modelTurn?.parts?.[0]?.inlineData?.data\<close> together with the
  outcome of \<open>decodeAudioData(decode(data), ctx, 24000, 1)\<close> (\<open>utils/audio-utils\<close>
  is not part of the sources): no data, data whose decoding rejects, or a buffer of the
  given duration.
\<close>

datatype inline_data = NoAudio | Undecodable | Decoded real

text \<open>
  The fields of a \<open>LiveServerMessage\<close> the handlers read. A transcription text
  that is absent and one that is empty are both falsy, hence both \<open>''''\<close>.
\<close>

record message =
  turnComplete :: bool
  interrupted :: bool
  outputTranscription :: string
  inputTranscription :: string
  audio :: inline_data

text \<open>What \<open>session.sendRealtimeInput\<close> is called with.\<close>

datatype outbound = Media "real list" | Text string

text \<open>
  The refs and React state of the hook.
  \<^item> \<open>outputCtx\<close>, \<open>outputNode\<close>, \<open>session\<close>: whether \<open>outputAudioContextRef\<close>,
    \<open>outputNodeRef\<close>, \<open>sessionPromiseRef\<close> are non-null;
  \<^item> \<open>stream\<close>: \<open>None\<close> when \<open>streamRef\<close> is null, otherwise the \<open>enabled\<close> flag
    of its audio track (\<open>getUserMedia({audio: true})\<close> yields one audio track);
  \<^item> \<open>sources\<close>: every source node created so far, a node being named by its index;
    \<open>activeSources\<close> is \<open>activeSourcesRef\<close>;
  \<^item> \<open>onTranscriptionUpdate\<close>: whether the optional prop is given; \<open>updates\<close>: the
    calls made to it, as pairs (user, model);
  \<^item> \<open>sent\<close>: the calls of \<open>session.sendRealtimeInput\<close>.
\<close>

record hook =
  outputCtx :: bool
  outputNode :: bool
  stream :: "bool option"
  session :: bool
  onTranscriptionUpdate :: bool
  isMuted :: bool
  isPlaying :: bool
  volume :: real
  nextStartTime :: real
  sources :: "source list"
  activeSources :: "nat set"
  processingModelTurn :: bool
  ignoringNextTurn :: bool
  audioSpeed :: real
  updates :: "(string \<times> string) list"
  sent :: "outbound list"

datatype event =
    OnMessage real message
  | Ended nat
  | ToggleMute real
  | SendControlMessage string
  | SendTextMessage string
  | AudioProcess "real list"
  | SetSpeed real
  | Cleanup real

text \<open>The state once \<open>connect\<close> has run and \<open>onopen\<close> has fired.\<close>

definition connected :: "real \<Rightarrow> hook" where
  "connected speed =
     \<lparr>outputCtx = True, outputNode = True, stream = Some True, session = True,
      onTranscriptionUpdate = True, isMuted = False, isPlaying = False, volume = 0,
      nextStartTime = 0, sources = [], activeSources = {},
      processingModelTurn = False, ignoringNextTurn = False, audioSpeed = speed,
      updates = [], sent = []\<rparr>"

section \<open>Operations shared by the variants\<close>

text \<open>\<open>setMediaMute\<close> (lines 74-81 and 440-447).\<close>

definition setMediaMute :: "bool \<Rightarrow> hook \<Rightarrow> hook" where
  "setMediaMute shouldMute s =
     (case stream s of
        None \<Rightarrow> s
      | Some _ \<Rightarrow> s\<lparr>stream := Some (\<not> shouldMute), isMuted := shouldMute\<rparr>)"

text \<open>
  \<open>source.stop()\<close> inside \<open>try/catch\<close>: the node stops at the current instant; a
  node that was stopped before keeps its first stop.
\<close>

definition stop :: "real \<Rightarrow> source \<Rightarrow> source" where
  "stop now src =
     (case stoppedAt src of None \<Rightarrow> src\<lparr>stoppedAt := Some now\<rparr> | Some _ \<Rightarrow> src)"

text \<open>\<open>activeSourcesRef.current.forEach(source => source.stop())\<close>.\<close>

definition stopAll :: "real \<Rightarrow> nat set \<Rightarrow> source list \<Rightarrow> source list" where
  "stopAll now A srcs =
     map (\<lambda>(i, src). if i \<in> A then stop now src else src) (enumerate 0 srcs)"

text \<open>
  \<open>ctx.createBufferSource()\<close>, \<open>source.start(nextStartTimeRef.current)\<close> and
  \<open>activeSourcesRef.current.add(source)\<close> for a buffer of duration \<open>d\<close> played at
  rate \<open>r\<close>.
\<close>

definition startSource :: "real \<Rightarrow> real \<Rightarrow> hook \<Rightarrow> hook" where
  "startSource d r s =
     s\<lparr>sources := sources s @
          [\<lparr>startAt = nextStartTime s, duration = d, playbackRate = r, stoppedAt = None\<rparr>],
       activeSources := insert (length (sources s)) (activeSources s)\<rparr>"

text \<open>The transcription block of \<open>onmessage\<close> (lines 232-238, 555-561, 856-862).\<close>

definition transcription :: "message \<Rightarrow> hook \<Rightarrow> hook" where
  "transcription m s =
     (if onTranscriptionUpdate s then
        (if outputTranscription m \<noteq> [] then
           s\<lparr>updates := updates s @ [([], outputTranscription m)]\<rparr>
         else if inputTranscription m \<noteq> [] then
           s\<lparr>updates := updates s @ [(inputTranscription m, [])]\<rparr>
         else s)
      else s)"

text \<open>\<open>sendTextMessage\<close> (lines 100-106).\<close>

definition sendTextMessage :: "string \<Rightarrow> hook \<Rightarrow> hook" where
  "sendTextMessage txt s = (if session s then s\<lparr>sent := sent s @ [Text txt]\<rparr> else s)"

section \<open>The control-message variant (lines 1-373)\<close>

text \<open>\<open>stopAudioPlayback\<close> (lines 83-98).\<close>

definition stopAudioPlayback1 :: "real \<Rightarrow> hook \<Rightarrow> hook" where
  "stopAudioPlayback1 now s =
     (let s1 = s\<lparr>sources := stopAll now (activeSources s) (sources s), activeSources := {}\<rparr>;
          s2 = (if outputCtx s1 then s1\<lparr>nextStartTime := now\<rparr> else s1)
      in s2\<lparr>processingModelTurn := False, isPlaying := False\<rparr>)"

text \<open>\<open>sendControlMessage\<close> (lines 110-117).\<close>

definition sendControlMessage :: "string \<Rightarrow> hook \<Rightarrow> hook" where
  "sendControlMessage txt s =
     (if session s then s\<lparr>ignoringNextTurn := True, sent := sent s @ [Text txt]\<rparr> else s)"

text \<open>\<open>cleanup\<close> (lines 37-71).\<close>

definition cleanup1 :: "real \<Rightarrow> hook \<Rightarrow> hook" where
  "cleanup1 now s =
     s\<lparr>sources := stopAll now (activeSources s) (sources s), activeSources := {},
       isPlaying := False, outputCtx := False, stream := None, session := False,
       volume := 0, isMuted := False, nextStartTime := 0,
       processingModelTurn := False, ignoringNextTurn := False\<rparr>"

text \<open>
  \<open>processor.onaudioprocess\<close> (lines 187-202). The script processor delivers
  frames of 4096 samples; for the empty list, which it never delivers, JavaScript would
  compute \<open>NaN\<close> where \<open>rms\<close> is 0.
\<close>

definition rms :: "real list \<Rightarrow> real" where
  "rms inputData = sqrt (sum_list (map (\<lambda>x. x * x) inputData) / real (length inputData))"

definition onaudioprocess1 :: "real list \<Rightarrow> hook \<Rightarrow> hook" where
  "onaudioprocess1 inputData s =
     (let s1 = (if stream s = Some True then s\<lparr>volume := min (rms inputData * 5) 1\<rparr> else s)
      in s1\<lparr>sent := sent s1 @ [Media inputData]\<rparr>)"

text \<open>The \<open>ended\<close> listener of source \<open>i\<close> (lines 273-292).\<close>

definition ended1 :: "nat \<Rightarrow> hook \<Rightarrow> hook" where
  "ended1 i s =
     (let s1 = s\<lparr>activeSources := activeSources s - {i}\<rparr>
      in if activeSources s1 = {} then
           (let s2 = s1\<lparr>isPlaying := False\<rparr>
            in if \<not> processingModelTurn s2 then setMediaMute False s2 else s2)
         else s1)"

text \<open>
  \<open>onmessage\<close> (lines 207-313), in its parts: \<open>head1\<close> is the
  \<open>turnComplete\<close> block and the transcription block (lines 209-239),
  \<open>prepare1\<close> the statements before the \<open>await\<close> (lines 252-260), and
  \<open>tail1\<close> the part after the audio block (lines 300-312); the \<open>return\<close> of
  line 246 and a rejected \<open>await\<close> both skip \<open>tail1\<close>.

  \<open>onmessage\<close> reads \<open>isMuted\<close> through the closure of \<open>connect\<close>,
  which React keeps from the first render, where it is false, so that the handler calls
  \<open>setMediaMute(true)\<close> for every chunk. \<open>prepare1\<close> reads the state instead;
  in the states the hook reaches the outcome is the same, since there \<open>isMuted\<close>
  is only true while the track is disabled (lemma \<open>setMediaMute_when_muted\<close>).
\<close>

definition tail1 :: "real \<Rightarrow> message \<Rightarrow> hook \<Rightarrow> hook" where
  "tail1 now m s =
     (let s1 = (if interrupted m then setMediaMute False (stopAudioPlayback1 now s) else s)
      in if turnComplete m \<and> activeSources s1 = {} then setMediaMute False s1 else s1)"

definition head1 :: "message \<Rightarrow> hook \<Rightarrow> hook" where
  "head1 m s =
     (let s1 = (if turnComplete m then
                  (let t = s\<lparr>processingModelTurn := False\<rparr>
                   in if ignoringNextTurn t then t\<lparr>ignoringNextTurn := False\<rparr> else t)
                else s)
      in if \<not> ignoringNextTurn s1 then transcription m s1 else s1)"

definition prepare1 :: "real \<Rightarrow> hook \<Rightarrow> hook" where
  "prepare1 now s =
     (let s1 = (if \<not> isMuted s then setMediaMute True s else s);
          s2 = s1\<lparr>processingModelTurn := True, isPlaying := True\<rparr>
      in s2\<lparr>nextStartTime := max (nextStartTime s2) now\<rparr>)"

definition onmessage1 :: "real \<Rightarrow> message \<Rightarrow> hook \<Rightarrow> hook" where
  "onmessage1 now m s =
     (let s1 = head1 m s
      in case audio m of
           NoAudio \<Rightarrow> tail1 now m s1
         | Undecodable \<Rightarrow>
             (if ignoringNextTurn s1 then s1
              else if outputCtx s1 \<and> outputNode s1 then prepare1 now s1
              else tail1 now m s1)
         | Decoded d \<Rightarrow>
             (if ignoringNextTurn s1 then s1
              else if outputCtx s1 \<and> outputNode s1 then
                (let s2 = startSource d 1 (prepare1 now s1)
                 in tail1 now m (s2\<lparr>nextStartTime := nextStartTime s2 + d\<rparr>))
              else tail1 now m s1))"

text \<open>\<open>toggleMute\<close> (lines 341-359).\<close>

definition toggleMute1 :: "real \<Rightarrow> hook \<Rightarrow> hook" where
  "toggleMute1 now s =
     (if activeSources s \<noteq> {} \<or> isPlaying s then
        setMediaMute False (stopAudioPlayback1 now s)
      else (case stream s of None \<Rightarrow> s | Some isCurrentlyEnabled \<Rightarrow> setMediaMute isCurrentlyEnabled s))"

text \<open>
  The part of \<open>onmessage\<close> that runs when the \<open>await\<close> of line 262 has
  delivered a buffer of duration \<open>d\<close> (lines 269-312): the source is created and
  started, the cursor advances, then \<open>tail1\<close>. For a chunk that is enqueued,
  \<open>onmessage1\<close> is \<open>head1\<close>, \<open>prepare1\<close> and \<open>resume1\<close> in a row
  (lemma \<open>onmessage1_resumes\<close>).
\<close>

definition resume1 :: "real \<Rightarrow> real \<Rightarrow> message \<Rightarrow> hook \<Rightarrow> hook" where
  "resume1 d now m s =
     (let s1 = startSource d 1 s
      in tail1 now m (s1\<lparr>nextStartTime := nextStartTime s1 + d\<rparr>))"

text \<open>
  \<open>connect\<close> (lines 119-334), as far as the refs of \<open>hook\<close> go: a new output
  context and gain node are stored (lines 126-134); when \<open>getUserMedia\<close> grants a
  stream, the stream is stored with its track enabled, \<open>setMediaMute(false)\<close> is
  called (lines 141-145) and the session is stored (line 327); when it rejects, the
  \<open>catch\<close> block calls \<open>cleanup\<close> (lines 329-333). \<open>connect\<close> leaves
  \<open>activeSourcesRef\<close> and the sources of the earlier output context as they are.
\<close>

definition connect1 :: "real \<Rightarrow> bool \<Rightarrow> hook \<Rightarrow> hook" where
  "connect1 now granted s =
     (let s1 = s\<lparr>outputCtx := True, outputNode := True\<rparr>
      in if granted then (setMediaMute False (s1\<lparr>stream := Some True\<rparr>))\<lparr>session := True\<rparr>
         else cleanup1 now s1)"

text \<open>
  \<open>onclose\<close> (lines 314-316, 611-613): \<open>setConnectionState(DISCONNECTED)\<close> and
  nothing else; no ref of \<open>hook\<close> changes (\<open>onerror\<close>, by contrast, calls
  \<open>cleanup\<close>).
\<close>

definition onclose :: "hook \<Rightarrow> hook" where
  "onclose s = s"

fun step1 :: "event \<Rightarrow> hook \<Rightarrow> hook" where
  "step1 (OnMessage now m) s = onmessage1 now m s"
| "step1 (Ended i) s = ended1 i s"
| "step1 (ToggleMute now) s = toggleMute1 now s"
| "step1 (SendControlMessage txt) s = sendControlMessage txt s"
| "step1 (SendTextMessage txt) s = sendTextMessage txt s"
| "step1 (AudioProcess inputData) s = onaudioprocess1 inputData s"
| "step1 (SetSpeed v) s = s"
| "step1 (Cleanup now) s = cleanup1 now s"

text \<open>
  \<open>handleTranscriptionUpdate\<close> of the component \<open>App\<close> (the same text in all three
  \<open>App\<close> files), the callback given as \<open>onTranscriptionUpdate\<close>, and the
  transcript it builds from the calls made.
\<close>

record entry =
  user :: string
  model :: string

definition handleTranscriptionUpdate :: "string \<Rightarrow> string \<Rightarrow> entry list \<Rightarrow> entry list" where
  "handleTranscriptionUpdate userText modelText prev =
     (if userText \<noteq> [] then
        (if prev \<noteq> [] \<and> model (last prev) = [] \<and> user (last prev) \<noteq> [] then
           butlast prev @ [(last prev)\<lparr>user := user (last prev) @ userText\<rparr>]
         else prev @ [\<lparr>user = userText, model = []\<rparr>])
      else if modelText \<noteq> [] then
        (if prev \<noteq> [] then
           butlast prev @ [(last prev)\<lparr>model := model (last prev) @ modelText\<rparr>]
         else prev @ [\<lparr>user = [], model = modelText\<rparr>])
      else prev)"

definition transcript :: "hook \<Rightarrow> entry list" where
  "transcript s = foldl (\<lambda>prev (u, m). handleTranscriptionUpdate u m prev) [] (updates s)"

section \<open>The mute variant (lines 374-684)\<close>

text \<open>\<open>stopAudioPlayback\<close> (lines 449-458).\<close>

definition stopAudioPlayback2 :: "real \<Rightarrow> hook \<Rightarrow> hook" where
  "stopAudioPlayback2 now s =
     (if outputCtx s then
        s\<lparr>sources := stopAll now (activeSources s) (sources s), activeSources := {},
          nextStartTime := now, processingModelTurn := False\<rparr>
      else s)"

text \<open>\<open>cleanup\<close> (lines 405-437).\<close>

definition cleanup2 :: "real \<Rightarrow> hook \<Rightarrow> hook" where
  "cleanup2 now s =
     s\<lparr>sources := stopAll now (activeSources s) (sources s), activeSources := {},
       outputCtx := False, stream := None, session := False,
       volume := 0, isMuted := False, nextStartTime := 0,
       processingModelTurn := False\<rparr>"

text \<open>\<open>processor.onaudioprocess\<close> (lines 534-549).\<close>

definition onaudioprocess2 :: "real list \<Rightarrow> hook \<Rightarrow> hook" where
  "onaudioprocess2 inputData s =
     (let s1 = (if stream s = Some True then s\<lparr>volume := min (rms inputData * 5) 1\<rparr> else s)
      in s1\<lparr>sent := sent s1 @ [Media inputData]\<rparr>)"

text \<open>The \<open>ended\<close> listener of source \<open>i\<close> (lines 592-598).\<close>

definition ended2 :: "nat \<Rightarrow> hook \<Rightarrow> hook" where
  "ended2 i s =
     (let s1 = s\<lparr>activeSources := activeSources s - {i}\<rparr>
      in if activeSources s1 = {} \<and> \<not> processingModelTurn s1 then setMediaMute False s1
         else s1)"

text \<open>
  \<open>onmessage\<close> (lines 554-610), in its parts: \<open>head2\<close> is the transcription
  block and the \<open>turnComplete\<close> block (lines 555-569), \<open>prepare2\<close> the statements
  before the \<open>await\<close> (lines 575-579), and \<open>tail2\<close> the \<open>interrupted\<close>
  block (lines 605-609), which a rejected \<open>await\<close> skips.
\<close>

definition tail2 :: "real \<Rightarrow> message \<Rightarrow> hook \<Rightarrow> hook" where
  "tail2 now m s =
     (if interrupted m then setMediaMute False (stopAudioPlayback2 now s) else s)"

definition head2 :: "message \<Rightarrow> hook \<Rightarrow> hook" where
  "head2 m s =
     (let s1 = transcription m s
      in if turnComplete m then
           (let t = s1\<lparr>processingModelTurn := False\<rparr>
            in if activeSources t = {} then setMediaMute False t else t)
         else s1)"

definition prepare2 :: "real \<Rightarrow> hook \<Rightarrow> hook" where
  "prepare2 now s =
     (let s1 = (setMediaMute True s)\<lparr>processingModelTurn := True\<rparr>
      in s1\<lparr>nextStartTime := max (nextStartTime s1) now\<rparr>)"

definition onmessage2 :: "real \<Rightarrow> message \<Rightarrow> hook \<Rightarrow> hook" where
  "onmessage2 now m s =
     (let s1 = head2 m s
      in case audio m of
           NoAudio \<Rightarrow> tail2 now m s1
         | Undecodable \<Rightarrow>
             (if outputCtx s1 \<and> outputNode s1 then prepare2 now s1 else tail2 now m s1)
         | Decoded d \<Rightarrow>
             (if outputCtx s1 \<and> outputNode s1 then
                (let s2 = startSource d 1 (prepare2 now s1)
                 in tail2 now m (s2\<lparr>nextStartTime := nextStartTime s2 + d\<rparr>))
              else tail2 now m s1))"

text \<open>\<open>toggleMute\<close> (lines 637-654).\<close>

definition toggleMute2 :: "real \<Rightarrow> hook \<Rightarrow> hook" where
  "toggleMute2 now s =
     (if activeSources s \<noteq> {} then setMediaMute False (stopAudioPlayback2 now s)
      else (case stream s of None \<Rightarrow> s | Some isCurrentlyEnabled \<Rightarrow> setMediaMute isCurrentlyEnabled s))"

text \<open>
  The part of \<open>onmessage\<close> after the \<open>await\<close> of line 581 (lines 588-609), and
  \<open>connect\<close> (lines 468-631; the stream and \<open>setMediaMute(false)\<close> at lines
  490-494, the session at line 624, the \<open>catch\<close> block at lines 626-630).
\<close>

definition resume2 :: "real \<Rightarrow> real \<Rightarrow> message \<Rightarrow> hook \<Rightarrow> hook" where
  "resume2 d now m s =
     (let s1 = startSource d 1 s
      in tail2 now m (s1\<lparr>nextStartTime := nextStartTime s1 + d\<rparr>))"

definition connect2 :: "real \<Rightarrow> bool \<Rightarrow> hook \<Rightarrow> hook" where
  "connect2 now granted s =
     (let s1 = s\<lparr>outputCtx := True, outputNode := True\<rparr>
      in if granted then (setMediaMute False (s1\<lparr>stream := Some True\<rparr>))\<lparr>session := True\<rparr>
         else cleanup2 now s1)"

fun step2 :: "event \<Rightarrow> hook \<Rightarrow> hook" where
  "step2 (OnMessage now m) s = onmessage2 now m s"
| "step2 (Ended i) s = ended2 i s"
| "step2 (ToggleMute now) s = toggleMute2 now s"
| "step2 (SendControlMessage txt) s = s"
| "step2 (SendTextMessage txt) s = sendTextMessage txt s"
| "step2 (AudioProcess inputData) s = onaudioprocess2 inputData s"
| "step2 (SetSpeed v) s = s"
| "step2 (Cleanup now) s = cleanup2 now s"

section \<open>The speed variant (lines 685-967)\<close>

text \<open>The effect \<open>audioSpeedRef.current = audioSpeed\<close> (lines 718-720).\<close>

definition setSpeed :: "real \<Rightarrow> hook \<Rightarrow> hook" where
  "setSpeed v s = s\<lparr>audioSpeed := v\<rparr>"

text \<open>\<open>cleanup\<close> (lines 722-756).\<close>

definition cleanup3 :: "real \<Rightarrow> hook \<Rightarrow> hook" where
  "cleanup3 now s =
     s\<lparr>sources := stopAll now (activeSources s) (sources s), activeSources := {},
       outputCtx := False, stream := None, session := False,
       volume := 0, nextStartTime := 0\<rparr>"

text \<open>\<open>processor.onaudioprocess\<close> (lines 836-849).\<close>

definition onaudioprocess3 :: "real list \<Rightarrow> hook \<Rightarrow> hook" where
  "onaudioprocess3 inputData s =
     s\<lparr>volume := min (rms inputData * 5) 1, sent := sent s @ [Media inputData]\<rparr>"

text \<open>The \<open>ended\<close> listener of source \<open>i\<close> (lines 886-888).\<close>

definition ended3 :: "nat \<Rightarrow> hook \<Rightarrow> hook" where
  "ended3 i s = s\<lparr>activeSources := activeSources s - {i}\<rparr>"

text \<open>
  \<open>onmessage\<close> (lines 854-905); \<open>prepare3\<close> is the statement before the
  \<open>await\<close> (line 870) and \<open>tail3\<close> the \<open>interrupted\<close> block (lines
  897-904). The speed is read from \<open>audioSpeedRef\<close> when the source is created.
  The slider of \<open>App\<close> keeps the speed within 0.7 and 1.5; at speed 0 JavaScript would
  advance the cursor to \<open>Infinity\<close>, whereas \<open>d / 0 = 0\<close> here, so the properties
  below that depend on the quotient assume a positive speed.
\<close>

definition tail3 :: "real \<Rightarrow> message \<Rightarrow> hook \<Rightarrow> hook" where
  "tail3 now m s =
     (if interrupted m then
        s\<lparr>sources := stopAll now (activeSources s) (sources s), activeSources := {},
          nextStartTime := 0\<rparr>
      else s)"

definition prepare3 :: "real \<Rightarrow> hook \<Rightarrow> hook" where
  "prepare3 now s = s\<lparr>nextStartTime := max (nextStartTime s) now\<rparr>"

definition onmessage3 :: "real \<Rightarrow> message \<Rightarrow> hook \<Rightarrow> hook" where
  "onmessage3 now m s =
     (let s1 = transcription m s
      in case audio m of
           NoAudio \<Rightarrow> tail3 now m s1
         | Undecodable \<Rightarrow>
             (if outputCtx s1 \<and> outputNode s1 then prepare3 now s1 else tail3 now m s1)
         | Decoded d \<Rightarrow>
             (if outputCtx s1 \<and> outputNode s1 then
                (let s2 = prepare3 now s1;
                     currentSpeed = audioSpeed s2;
                     s3 = startSource d currentSpeed s2
                 in tail3 now m (s3\<lparr>nextStartTime := nextStartTime s3 + d / currentSpeed\<rparr>))
              else tail3 now m s1))"

fun step3 :: "event \<Rightarrow> hook \<Rightarrow> hook" where
  "step3 (OnMessage now m) s = onmessage3 now m s"
| "step3 (Ended i) s = ended3 i s"
| "step3 (ToggleMute now) s = s"
| "step3 (SendControlMessage txt) s = s"
| "step3 (SendTextMessage txt) s = s"
| "step3 (AudioProcess inputData) s = onaudioprocess3 inputData s"
| "step3 (SetSpeed v) s = setSpeed v s"
| "step3 (Cleanup now) s = cleanup3 now s"

section \<open>JavaScript numbers\<close>

text \<open>
  A JavaScript number is an IEEE 754 binary64 value, and the result of a sum or a
  quotient is the exact result rounded to the nearest such value, a tie going to the
  value whose significand is even. \<open>binary64 x\<close> is that rounding of the real
  \<open>x\<close>: \<open>exponent x\<close> is the binary exponent of \<open>x\<close>, not below -1022, where
  the subnormal numbers begin; \<open>ulp x\<close> is the distance between the binary64 values
  around \<open>x\<close> (a significand has 53 bits); \<open>nearestEven\<close> rounds a real to an
  integer, ties to even. IEEE 754 gives \<open>Infinity\<close> where \<open>binary64\<close> gives a
  value of magnitude \<open>2 ^ 1024\<close> or more; a result that is \<open>finite64\<close> is the
  result of JavaScript.
\<close>

definition nearestEven :: "real \<Rightarrow> int" where
  "nearestEven y =
     (let n = \<lfloor>y\<rfloor>; r = y - of_int n
      in if r < 1/2 then n else if 1/2 < r then n + 1 else if even n then n else n + 1)"

definition exponent :: "real \<Rightarrow> int" where
  "exponent x = max \<lfloor>log 2 \<bar>x\<bar>\<rfloor> (- 1022)"

definition ulp :: "real \<Rightarrow> real" where
  "ulp x = 2 powr (of_int (exponent x) - 52)"

definition binary64 :: "real \<Rightarrow> real" where
  "binary64 x = (if x = 0 then 0 else of_int (nearestEven (x / ulp x)) * ulp x)"

definition finite64 :: "real \<Rightarrow> bool" where
  "finite64 x = (\<bar>x\<bar> < 2 ^ 1024)"

text \<open>
  \<open>onmessage1\<close> and \<open>onmessage3\<close> above advance the cursor in exact arithmetic.
  \<open>onmessage1_double\<close> and \<open>onmessage3_double\<close> are the same handlers with the sum
  of line 296 and the quotient and the sum of line 894 rounded as JavaScript rounds
  them; \<open>Math.max\<close> (lines 260, 870) returns one of its arguments and rounds nothing.
  \<open>step1_double\<close> and \<open>step3_double\<close> are \<open>step1\<close> and \<open>step3\<close> with these
  handlers.
\<close>

definition onmessage1_double :: "real \<Rightarrow> message \<Rightarrow> hook \<Rightarrow> hook" where
  "onmessage1_double now m s =
     (let s1 = head1 m s
      in case audio m of
           NoAudio \<Rightarrow> tail1 now m s1
         | Undecodable \<Rightarrow>
             (if ignoringNextTurn s1 then s1
              else if outputCtx s1 \<and> outputNode s1 then prepare1 now s1
              else tail1 now m s1)
         | Decoded d \<Rightarrow>
             (if ignoringNextTurn s1 then s1
              else if outputCtx s1 \<and> outputNode s1 then
                (let s2 = startSource d 1 (prepare1 now s1)
                 in tail1 now m (s2\<lparr>nextStartTime := binary64 (nextStartTime s2 + d)\<rparr>))
              else tail1 now m s1))"

fun step1_double :: "event \<Rightarrow> hook \<Rightarrow> hook" where
  "step1_double (OnMessage now m) s = onmessage1_double now m s"
| "step1_double (Ended i) s = ended1 i s"
| "step1_double (ToggleMute now) s = toggleMute1 now s"
| "step1_double (SendControlMessage txt) s = sendControlMessage txt s"
| "step1_double (SendTextMessage txt) s = sendTextMessage txt s"
| "step1_double (AudioProcess inputData) s = onaudioprocess1 inputData s"
| "step1_double (SetSpeed v) s = s"
| "step1_double (Cleanup now) s = cleanup1 now s"

definition onmessage3_double :: "real \<Rightarrow> message \<Rightarrow> hook \<Rightarrow> hook" where
  "onmessage3_double now m s =
     (let s1 = transcription m s
      in case audio m of
           NoAudio \<Rightarrow> tail3 now m s1
         | Undecodable \<Rightarrow>
             (if outputCtx s1 \<and> outputNode s1 then prepare3 now s1 else tail3 now m s1)
         | Decoded d \<Rightarrow>
             (if outputCtx s1 \<and> outputNode s1 then
                (let s2 = prepare3 now s1;
                     currentSpeed = audioSpeed s2;
                     s3 = startSource d currentSpeed s2
                 in tail3 now m
                      (s3\<lparr>nextStartTime :=
                            binary64 (nextStartTime s3 + binary64 (d / currentSpeed))\<rparr>))
              else tail3 now m s1))"

fun step3_double :: "event \<Rightarrow> hook \<Rightarrow> hook" where
  "step3_double (OnMessage now m) s = onmessage3_double now m s"
| "step3_double (Ended i) s = ended3 i s"
| "step3_double (ToggleMute now) s = s"
| "step3_double (SendControlMessage txt) s = s"
| "step3_double (SendTextMessage txt) s = s"
| "step3_double (AudioProcess inputData) s = onaudioprocess3 inputData s"
| "step3_double (SetSpeed v) s = setSpeed v s"
| "step3_double (Cleanup now) s = cleanup3 now s"

section \<open>Notions used by the properties\<close>

text \<open>Running a list of events, oldest first.\<close>

definition run :: "(event \<Rightarrow> hook \<Rightarrow> hook) \<Rightarrow> event list \<Rightarrow> hook \<Rightarrow> hook" where
  "run step es s = foldl (\<lambda>t e. step e t) s es"

text \<open>A message that carries nothing.\<close>

definition noMessage :: message where
  "noMessage = \<lparr>turnComplete = False, interrupted = False, outputTranscription = [],
                inputTranscription = [], audio = NoAudio\<rparr>"

text \<open>The microphone gate is open: there is a stream and its track is enabled.\<close>

definition micEnabled :: "hook \<Rightarrow> bool" where
  "micEnabled s = (stream s = Some True)"

text \<open>There is a microphone stream.\<close>

definition hasStream :: "hook \<Rightarrow> bool" where
  "hasStream s = (stream s \<noteq> None)"

text \<open>
  What holds of the states the control-message variant (\<open>inv1\<close>) and the mute
  variant (\<open>inv2\<close>) reach from \<open>connected\<close>: the output context is never
  without a stream, \<open>isMuted\<close> is only set while the track is disabled, and while
  sources are active the output context is there and the track is disabled.
\<close>

definition inv1 :: "hook \<Rightarrow> bool" where
  "inv1 s = ((outputCtx s \<longrightarrow> hasStream s)
           \<and> (isMuted s \<longrightarrow> \<not> micEnabled s)
           \<and> (activeSources s \<noteq> {} \<longrightarrow> outputCtx s \<and> \<not> micEnabled s))"

definition inv2 :: "hook \<Rightarrow> bool" where
  "inv2 s = ((outputCtx s \<longrightarrow> hasStream s)
           \<and> (activeSources s \<noteq> {} \<longrightarrow> outputCtx s \<and> \<not> micEnabled s))"

text \<open>
  Following a run of events together with one bit: whether the session has signalled the
  end of the reply (a message with \<open>turnComplete\<close>) and no source has been created
  by that message or since. \<open>completeSignalled step es s\<close> is that bit after the
  events \<open>es\<close>, started in \<open>s\<close>.
\<close>

definition observe ::
  "(event \<Rightarrow> hook \<Rightarrow> hook) \<Rightarrow> hook \<times> bool \<Rightarrow> event \<Rightarrow> hook \<times> bool" where
  "observe step p e =
     (let s' = step e (fst p)
      in (s', if length (sources s') \<noteq> length (sources (fst p)) then False
              else (case e of OnMessage now m \<Rightarrow> turnComplete m \<or> snd p | _ \<Rightarrow> snd p)))"

definition completeSignalled :: "(event \<Rightarrow> hook \<Rightarrow> hook) \<Rightarrow> event list \<Rightarrow> hook \<Rightarrow> bool" where
  "completeSignalled step es s = snd (foldl (observe step) (s, False) es)"

text \<open>
  The events other than an interruption or a press of the button: every message without
  the \<open>interrupted\<close> flag, the end of a source that is in the active set, and the
  events that never touch the gate. The \<open>ended\<close> event of a source that is no longer
  in the set (it was stopped by a flush) is left out with the interruptions.
\<close>

fun ordinary :: "event \<Rightarrow> hook \<Rightarrow> bool" where
  "ordinary (OnMessage now m) s = (\<not> interrupted m)"
| "ordinary (Ended i) s = (i \<in> activeSources s)"
| "ordinary (ToggleMute now) s = False"
| "ordinary e s = True"

text \<open>
  A state with its bit: when sources are active and \<open>processingModelTurnRef\<close> is
  false, the end of the reply has been signalled since the last source was created.
\<close>

definition tracked :: "(hook \<Rightarrow> bool) \<Rightarrow> hook \<times> bool \<Rightarrow> bool" where
  "tracked P p = (P (fst p)
     \<and> (activeSources (fst p) \<noteq> {} \<and> \<not> processingModelTurn (fst p) \<longrightarrow> snd p))"

text \<open>The instant at which a source that is not stopped has played its buffer.\<close>

definition endAt :: "source \<Rightarrow> real" where
  "endAt src = startAt src + duration src / playbackRate src"

text \<open>From the instant \<open>t\<close> on the source gives no output.\<close>

definition silentFrom :: "real \<Rightarrow> source \<Rightarrow> bool" where
  "silentFrom t src = (case stoppedAt src of Some u \<Rightarrow> u \<le> t | None \<Rightarrow> endAt src \<le> t)"

text \<open>
  Every active source exists and has not been stopped; and what a flush at the instant
  \<open>now\<close> achieves from \<open>s\<close> to \<open>s'\<close>: no source is active any more, and
  each source that was active gives no output from \<open>now\<close> on.
\<close>

definition wellTracked :: "hook \<Rightarrow> bool" where
  "wellTracked s =
     (\<forall>i\<in>activeSources s. i < length (sources s) \<and> stoppedAt (sources s ! i) = None)"

definition flushed :: "real \<Rightarrow> hook \<Rightarrow> hook \<Rightarrow> bool" where
  "flushed now s s' =
     (activeSources s' = {} \<and> (\<forall>i\<in>activeSources s. silentFrom now (sources s' ! i)))"

text \<open>What is fixed when a source is scheduled: its start, its duration, its rate.\<close>

definition scheduled :: "source \<Rightarrow> real \<times> real \<times> real" where
  "scheduled src = (startAt src, duration src, playbackRate src)"

text \<open>A message that carries one audio chunk, decoded to a buffer of duration \<open>d\<close>.\<close>

definition audioMsg :: "real \<Rightarrow> message" where
  "audioMsg d = noMessage\<lparr>audio := Decoded d\<rparr>"


text \<open>
  The value the cursor takes when a source has been enqueued by
  \<open>onmessage3_double\<close> (by \<open>onmessage1_double\<close> as well: there the rate is 1 and
  the duration is a binary64 value): the scheduled end of the source. \<open>endAt\<close> above
  is its end in exact arithmetic.
\<close>

definition scheduledEnd :: "source \<Rightarrow> real" where
  "scheduledEnd src = binary64 (startAt src + binary64 (duration src / playbackRate src))"

text \<open>
  No source starts before the scheduled end of a source enqueued earlier; and the gaps
  between consecutive sources: the start of the next minus the scheduled end of the
  previous.
\<close>

definition apart :: "source list \<Rightarrow> bool" where
  "apart srcs = sorted_wrt (\<lambda>a b. scheduledEnd a \<le> startAt b) srcs"

fun gaps :: "source list \<Rightarrow> real list" where
  "gaps (a # b # rest) = (startAt b - scheduledEnd a) # gaps (b # rest)"
| "gaps rest = []"

text \<open>
  The events of a run in which segments are enqueued and nothing is flushed: messages
  that are not \<open>interrupted\<close> and whose audio chunk, if there is one, decodes; the
  clock value and the duration of the buffer are binary64 values, as
  \<open>ctx.currentTime\<close> and \<open>audioBuffer.duration\<close> are, and the duration is not
  negative; the speed is set to positive values only; sources may end, frames may be
  captured and text may be sent. \<open>toggleMute\<close> and \<open>cleanup\<close> may flush, and a
  control message makes \<open>onmessage\<close> discard the chunks that follow.
\<close>

fun steady :: "event \<Rightarrow> bool" where
  "steady (OnMessage now m) =
     (\<not> interrupted m \<and> binary64 now = now
      \<and> (case audio m of
            NoAudio \<Rightarrow> True
          | Undecodable \<Rightarrow> False
          | Decoded d \<Rightarrow> 0 \<le> d \<and> binary64 d = d))"
| "steady (Ended i) = True"
| "steady (ToggleMute now) = False"
| "steady (SendControlMessage txt) = False"
| "steady (SendTextMessage txt) = True"
| "steady (AudioProcess inputData) = True"
| "steady (SetSpeed v) = (0 < v)"
| "steady (Cleanup now) = False"

text \<open>
  What holds of the states such a run reaches from \<open>connected\<close>: the output exists,
  no control message is pending, the cursor is a binary64 value and not negative, the
  sources are apart, no source is scheduled to end after the cursor, and the cursor is the
  scheduled end of the source enqueued last.
\<close>

definition onSchedule :: "hook \<Rightarrow> bool" where
  "onSchedule s =
     (outputCtx s \<and> outputNode s \<and> \<not> ignoringNextTurn s
      \<and> binary64 (nextStartTime s) = nextStartTime s \<and> 0 \<le> nextStartTime s
      \<and> apart (sources s)
      \<and> (\<forall>a\<in>set (sources s). scheduledEnd a \<le> nextStartTime s)
      \<and> (sources s \<noteq> [] \<longrightarrow> nextStartTime s = scheduledEnd (last (sources s))))"

text \<open>The message that only signals the end of the reply.\<close>

definition completion :: message where
  "completion = noMessage\<lparr>turnComplete := True\<rparr>"

text \<open>The message that only signals an interruption.\<close>

definition interruption :: message where
  "interruption = noMessage\<lparr>interrupted := True\<rparr>"

text \<open>One chunk of two seconds, then the end of the reply.\<close>

definition answered :: "event list" where
  "answered = [OnMessage 0 (audioMsg 2), OnMessage 1 completion]"

text \<open>
  Two chunks of one second, the second coming four seconds after the first has ended;
  two chunks, the second coming while the first plays; and a chunk followed by a change
  of the speed to 1.
\<close>

definition underrun :: "event list" where
  "underrun = [OnMessage 0 (audioMsg 1), OnMessage 5 (audioMsg 1)]"

definition hurried :: "event list" where
  "hurried = [OnMessage 0 (audioMsg 2), OnMessage 1 (audioMsg 3)]"

definition slowedDown :: "event list" where
  "slowedDown = [OnMessage 0 (audioMsg 2), SetSpeed 1]"




text \<open>
  A hook with a control message pending, and a message that transcribes speech of the
  user.
\<close>

definition pendingControl :: hook where
  "pendingControl = sendControlMessage ''Speak slowly.'' (connected 1)"

definition userSays :: message where
  "userSays = noMessage\<lparr>inputTranscription := ''hello''\<rparr>"

text \<open>The control-message variant after one chunk of two seconds, received at instant 0.\<close>

definition playing1 :: hook where
  "playing1 = onmessage1 0 (audioMsg 2) (connected 1)"

text \<open>The speed variant after one chunk of two seconds, received at instant 0.\<close>

definition playing3 :: hook where
  "playing3 = onmessage3 0 (audioMsg 2) (connected 1)"

text \<open>A connected hook whose microphone is muted, and a frame of full amplitude.\<close>

definition mutedMic :: hook where
  "mutedMic = setMediaMute True (connected 1)"

definition loudFrame :: "real list" where
  "loudFrame = [1, 1]"

text \<open>
  A chunk of five seconds is enqueued at instant 0, the session closes, and the user
  connects again while the chunk plays (control-message and mute variant).
\<close>

definition reconnected1 :: hook where
  "reconnected1 = connect1 0 True (onclose (onmessage1 0 (audioMsg 5) (connected 1)))"

definition reconnected2 :: hook where
  "reconnected2 = connect2 0 True (onclose (onmessage2 0 (audioMsg 5) (connected 1)))"

text \<open>
  The handler of a chunk of five seconds is suspended at its \<open>await\<close>; the message
  that signals the end of the reply is handled; then the first handler resumes.
\<close>

definition overtaken1 :: hook where
  "overtaken1 =
     resume1 5 0 (audioMsg 5)
       (onmessage1 0 completion (prepare1 0 (head1 (audioMsg 5) (connected 1))))"

definition overtaken2 :: hook where
  "overtaken2 =
     resume2 5 0 (audioMsg 5)
       (onmessage2 0 completion (prepare2 0 (head2 (audioMsg 5) (connected 1))))"

section \<open>What each operation leaves unchanged\<close>

lemma stopAll_length [simp]: "length (stopAll now A srcs) = length srcs"
  by (simp add: stopAll_def)

lemma transcription_frame [simp]:
  "sources (transcription m s) = sources s"
  "activeSources (transcription m s) = activeSources s"
  "ignoringNextTurn (transcription m s) = ignoringNextTurn s"
  "processingModelTurn (transcription m s) = processingModelTurn s"
  "nextStartTime (transcription m s) = nextStartTime s"
  "outputCtx (transcription m s) = outputCtx s"
  "outputNode (transcription m s) = outputNode s"
  "stream (transcription m s) = stream s"
  "isMuted (transcription m s) = isMuted s"
  "isPlaying (transcription m s) = isPlaying s"
  "audioSpeed (transcription m s) = audioSpeed s"
  "session (transcription m s) = session s"
  "sent (transcription m s) = sent s"
  "volume (transcription m s) = volume s"
  by (simp_all add: transcription_def)


lemma startSource_frame [simp]:
  "updates (startSource d r s) = updates s"
  "ignoringNextTurn (startSource d r s) = ignoringNextTurn s"
  "processingModelTurn (startSource d r s) = processingModelTurn s"
  "nextStartTime (startSource d r s) = nextStartTime s"
  "outputCtx (startSource d r s) = outputCtx s"
  "outputNode (startSource d r s) = outputNode s"
  "stream (startSource d r s) = stream s"
  "isMuted (startSource d r s) = isMuted s"
  "isPlaying (startSource d r s) = isPlaying s"
  "audioSpeed (startSource d r s) = audioSpeed s"
  "session (startSource d r s) = session s"
  "sent (startSource d r s) = sent s"
  "volume (startSource d r s) = volume s"
  "activeSources (startSource d r s) = insert (length (sources s)) (activeSources s)"
  "sources (startSource d r s) = sources s @
     [\<lparr>startAt = nextStartTime s, duration = d, playbackRate = r, stoppedAt = None\<rparr>]"
  by (simp_all add: startSource_def)

lemma setMediaMute_frame [simp]:
  "updates (setMediaMute b s) = updates s"
  "sources (setMediaMute b s) = sources s"
  "activeSources (setMediaMute b s) = activeSources s"
  "ignoringNextTurn (setMediaMute b s) = ignoringNextTurn s"
  "processingModelTurn (setMediaMute b s) = processingModelTurn s"
  "nextStartTime (setMediaMute b s) = nextStartTime s"
  "outputCtx (setMediaMute b s) = outputCtx s"
  "outputNode (setMediaMute b s) = outputNode s"
  "session (setMediaMute b s) = session s"
  "sent (setMediaMute b s) = sent s"
  "audioSpeed (setMediaMute b s) = audioSpeed s"
  "isPlaying (setMediaMute b s) = isPlaying s"
  "volume (setMediaMute b s) = volume s"
  "onTranscriptionUpdate (setMediaMute b s) = onTranscriptionUpdate s"
  by (simp_all add: setMediaMute_def split: option.split)

lemma stopAudioPlayback1_frame [simp]:
  "updates (stopAudioPlayback1 now s) = updates s"
  "ignoringNextTurn (stopAudioPlayback1 now s) = ignoringNextTurn s"
  "activeSources (stopAudioPlayback1 now s) = {}"
  "processingModelTurn (stopAudioPlayback1 now s) = False"
  "stream (stopAudioPlayback1 now s) = stream s"
  "isMuted (stopAudioPlayback1 now s) = isMuted s"
  "outputCtx (stopAudioPlayback1 now s) = outputCtx s"
  "outputNode (stopAudioPlayback1 now s) = outputNode s"
  "session (stopAudioPlayback1 now s) = session s"
  "sent (stopAudioPlayback1 now s) = sent s"
  "sources (stopAudioPlayback1 now s) = stopAll now (activeSources s) (sources s)"
  by (simp_all add: stopAudioPlayback1_def Let_def)

lemma tail1_frame [simp]:
  "updates (tail1 now m s) = updates s"
  "ignoringNextTurn (tail1 now m s) = ignoringNextTurn s"
  by (simp_all add: tail1_def Let_def)

lemma sendControlMessage_frame [simp]:
  "updates (sendControlMessage txt s) = updates s"
  "sources (sendControlMessage txt s) = sources s"
  "activeSources (sendControlMessage txt s) = activeSources s"
  "session s \<Longrightarrow> ignoringNextTurn (sendControlMessage txt s)"
  by (simp_all add: sendControlMessage_def)

lemma step1_ignoring:
  "ignoringNextTurn (onmessage1 now m s) = (ignoringNextTurn s \<and> \<not> turnComplete m)"
  "ignoringNextTurn (ended1 i s) = ignoringNextTurn s"
  "ignoringNextTurn (toggleMute1 now s) = ignoringNextTurn s"
  "ignoringNextTurn (sendTextMessage txt s) = ignoringNextTurn s"
  "ignoringNextTurn (onaudioprocess1 f s) = ignoringNextTurn s"
  "\<not> ignoringNextTurn (cleanup1 now s)"
  by (simp_all add: onmessage1_def head1_def prepare1_def Let_def ended1_def toggleMute1_def
        sendTextMessage_def onaudioprocess1_def cleanup1_def
        split: inline_data.split option.split)

lemma scheduled_stop [simp]: "scheduled (stop now src) = scheduled src"
  by (simp add: scheduled_def stop_def split: option.split)

lemma scheduled_stopAll [simp]: "map scheduled (stopAll now A srcs) = map scheduled srcs"
  by (rule nth_equalityI) (simp_all add: stopAll_def nth_enumerate_eq)

lemma run_Cons [simp]: "run step (e # es) s = run step es (step e s)"
  and run_Nil [simp]: "run step [] s = s"
  and run_snoc [simp]: "run step (es @ [e]) s = step e (run step es s)"
  by (simp_all add: run_def)

lemma setSpeed_frame [simp]:
  "sources (setSpeed v s) = sources s"
  "nextStartTime (setSpeed v s) = nextStartTime s"
  "activeSources (setSpeed v s) = activeSources s"
  "outputCtx (setSpeed v s) = outputCtx s"
  "outputNode (setSpeed v s) = outputNode s"
  "audioSpeed (setSpeed v s) = v"
  by (simp_all add: setSpeed_def)

lemma micEnabled_update [simp]:
  "micEnabled (s\<lparr>nextStartTime := x\<rparr>) = micEnabled s"
  "micEnabled (s\<lparr>processingModelTurn := b\<rparr>) = micEnabled s"
  "micEnabled (s\<lparr>isPlaying := b\<rparr>) = micEnabled s"
  "micEnabled (s\<lparr>activeSources := A\<rparr>) = micEnabled s"
  "micEnabled (s\<lparr>sources := xs\<rparr>) = micEnabled s"
  "micEnabled (s\<lparr>ignoringNextTurn := b\<rparr>) = micEnabled s"
  "micEnabled (s\<lparr>sent := ys\<rparr>) = micEnabled s"
  "micEnabled (s\<lparr>volume := x\<rparr>) = micEnabled s"
  "micEnabled (s\<lparr>audioSpeed := x\<rparr>) = micEnabled s"
  "micEnabled (transcription m s) = micEnabled s"
  "micEnabled (startSource d r s) = micEnabled s"
  "micEnabled (stopAudioPlayback1 now s) = micEnabled s"
  by (simp_all add: micEnabled_def)

lemma hasStream_update [simp]:
  "hasStream (s\<lparr>nextStartTime := x\<rparr>) = hasStream s"
  "hasStream (s\<lparr>processingModelTurn := b\<rparr>) = hasStream s"
  "hasStream (s\<lparr>isPlaying := b\<rparr>) = hasStream s"
  "hasStream (s\<lparr>activeSources := A\<rparr>) = hasStream s"
  "hasStream (s\<lparr>sources := xs\<rparr>) = hasStream s"
  "hasStream (s\<lparr>ignoringNextTurn := b\<rparr>) = hasStream s"
  "hasStream (s\<lparr>sent := ys\<rparr>) = hasStream s"
  "hasStream (s\<lparr>volume := x\<rparr>) = hasStream s"
  "hasStream (s\<lparr>audioSpeed := x\<rparr>) = hasStream s"
  "hasStream (transcription m s) = hasStream s"
  "hasStream (startSource d r s) = hasStream s"
  "hasStream (stopAudioPlayback1 now s) = hasStream s"
  by (simp_all add: hasStream_def)

lemma setMediaMute_gate [simp]:
  "micEnabled (setMediaMute b s) = (hasStream s \<and> \<not> b)"
  "hasStream (setMediaMute b s) = hasStream s"
  "isMuted (setMediaMute b s) = (if hasStream s then b else isMuted s)"
  by (auto simp: setMediaMute_def micEnabled_def hasStream_def split: option.split)

lemma stopAudioPlayback2_frame [simp]:
  "updates (stopAudioPlayback2 now s) = updates s"
  "stream (stopAudioPlayback2 now s) = stream s"
  "hasStream (stopAudioPlayback2 now s) = hasStream s"
  "micEnabled (stopAudioPlayback2 now s) = micEnabled s"
  "isMuted (stopAudioPlayback2 now s) = isMuted s"
  "outputCtx (stopAudioPlayback2 now s) = outputCtx s"
  "outputNode (stopAudioPlayback2 now s) = outputNode s"
  "activeSources (stopAudioPlayback2 now s) = (if outputCtx s then {} else activeSources s)"
  "processingModelTurn (stopAudioPlayback2 now s) = (\<not> outputCtx s \<and> processingModelTurn s)"
  "sources (stopAudioPlayback2 now s)
     = (if outputCtx s then stopAll now (activeSources s) (sources s) else sources s)"
  "nextStartTime (stopAudioPlayback2 now s) = (if outputCtx s then now else nextStartTime s)"
  by (simp_all add: stopAudioPlayback2_def micEnabled_def hasStream_def)

lemma head1_frame [simp]:
  "outputCtx (head1 m s) = outputCtx s"
  "outputNode (head1 m s) = outputNode s"
  "stream (head1 m s) = stream s"
  "hasStream (head1 m s) = hasStream s"
  "micEnabled (head1 m s) = micEnabled s"
  "isMuted (head1 m s) = isMuted s"
  "activeSources (head1 m s) = activeSources s"
  "sources (head1 m s) = sources s"
  "nextStartTime (head1 m s) = nextStartTime s"
  "processingModelTurn (head1 m s) = (processingModelTurn s \<and> \<not> turnComplete m)"
  "ignoringNextTurn (head1 m s) = (ignoringNextTurn s \<and> \<not> turnComplete m)"
  by (simp_all add: head1_def Let_def micEnabled_def hasStream_def)

lemma prepare1_frame [simp]:
  "outputCtx (prepare1 now s) = outputCtx s"
  "outputNode (prepare1 now s) = outputNode s"
  "hasStream (prepare1 now s) = hasStream s"
  "micEnabled (prepare1 now s) = (isMuted s \<and> micEnabled s)"
  "isMuted (prepare1 now s) = (isMuted s \<or> hasStream s)"
  "activeSources (prepare1 now s) = activeSources s"
  "sources (prepare1 now s) = sources s"
  "nextStartTime (prepare1 now s) = max (nextStartTime s) now"
  "processingModelTurn (prepare1 now s)"
  "ignoringNextTurn (prepare1 now s) = ignoringNextTurn s"
  "updates (prepare1 now s) = updates s"
  by (simp_all add: prepare1_def Let_def)

lemma tail1_gate [simp]:
  "outputCtx (tail1 now m s) = outputCtx s"
  "outputNode (tail1 now m s) = outputNode s"
  "hasStream (tail1 now m s) = hasStream s"
  "activeSources (tail1 now m s) = (if interrupted m then {} else activeSources s)"
  "micEnabled (tail1 now m s)
     = (if interrupted m \<or> (turnComplete m \<and> activeSources s = {}) then hasStream s
        else micEnabled s)"
  "isMuted (tail1 now m s)
     = (if hasStream s \<and> (interrupted m \<or> (turnComplete m \<and> activeSources s = {}))
        then False else isMuted s)"
  "processingModelTurn (tail1 now m s) = (processingModelTurn s \<and> \<not> interrupted m)"
  "length (sources (tail1 now m s)) = length (sources s)"
  by (auto simp: tail1_def Let_def)

lemma head2_frame [simp]:
  "outputCtx (head2 m s) = outputCtx s"
  "outputNode (head2 m s) = outputNode s"
  "hasStream (head2 m s) = hasStream s"
  "micEnabled (head2 m s)
     = (if turnComplete m \<and> activeSources s = {} then hasStream s else micEnabled s)"
  "activeSources (head2 m s) = activeSources s"
  "sources (head2 m s) = sources s"
  "nextStartTime (head2 m s) = nextStartTime s"
  "processingModelTurn (head2 m s) = (processingModelTurn s \<and> \<not> turnComplete m)"
  by (simp_all add: head2_def Let_def)

lemma prepare2_frame [simp]:
  "outputCtx (prepare2 now s) = outputCtx s"
  "outputNode (prepare2 now s) = outputNode s"
  "hasStream (prepare2 now s) = hasStream s"
  "\<not> micEnabled (prepare2 now s)"
  "activeSources (prepare2 now s) = activeSources s"
  "sources (prepare2 now s) = sources s"
  "nextStartTime (prepare2 now s) = max (nextStartTime s) now"
  "processingModelTurn (prepare2 now s)"
  by (simp_all add: prepare2_def Let_def)

lemma tail2_gate [simp]:
  "outputCtx (tail2 now m s) = outputCtx s"
  "outputNode (tail2 now m s) = outputNode s"
  "hasStream (tail2 now m s) = hasStream s"
  "activeSources (tail2 now m s) = (if interrupted m \<and> outputCtx s then {} else activeSources s)"
  "micEnabled (tail2 now m s) = (if interrupted m then hasStream s else micEnabled s)"
  "processingModelTurn (tail2 now m s)
     = (if interrupted m then \<not> outputCtx s \<and> processingModelTurn s else processingModelTurn s)"
  "length (sources (tail2 now m s)) = length (sources s)"
  by (simp_all add: tail2_def)


lemma micEnabled_hasStream: "micEnabled s \<Longrightarrow> hasStream s"
  by (auto simp: micEnabled_def hasStream_def)

lemma toggle_case:
  "(case stream s of None \<Rightarrow> s | Some e \<Rightarrow> setMediaMute e s)
     = (if hasStream s then setMediaMute (micEnabled s) s else s)"
  by (cases "stream s") (simp_all add: hasStream_def micEnabled_def)

lemma toggleMute1_gate:
  "outputCtx (toggleMute1 now s) = outputCtx s"
  "hasStream (toggleMute1 now s) = hasStream s"
  "activeSources (toggleMute1 now s) = {}"
  "micEnabled (toggleMute1 now s)
     = (if activeSources s \<noteq> {} \<or> isPlaying s then hasStream s
        else hasStream s \<and> \<not> micEnabled s)"
  "isMuted (toggleMute1 now s)
     = (if hasStream s then (activeSources s = {} \<and> \<not> isPlaying s \<and> micEnabled s)
        else isMuted s)"
  by (auto simp: toggleMute1_def toggle_case dest: micEnabled_hasStream)

lemma toggleMute2_gate:
  "outputCtx (toggleMute2 now s) = outputCtx s"
  "hasStream (toggleMute2 now s) = hasStream s"
  "activeSources (toggleMute2 now s) = (if outputCtx s then {} else activeSources s)"
  "micEnabled (toggleMute2 now s)
     = (if activeSources s \<noteq> {} then hasStream s else hasStream s \<and> \<not> micEnabled s)"
  by (auto simp: toggleMute2_def toggle_case dest: micEnabled_hasStream)

lemma ended1_gate:
  "outputCtx (ended1 i s) = outputCtx s"
  "hasStream (ended1 i s) = hasStream s"
  "activeSources (ended1 i s) = activeSources s - {i}"
  "micEnabled (ended1 i s)
     = (if activeSources s - {i} = {} \<and> \<not> processingModelTurn s then hasStream s
        else micEnabled s)"
  "isMuted (ended1 i s)
     = (if activeSources s - {i} = {} \<and> \<not> processingModelTurn s \<and> hasStream s then False
        else isMuted s)"
  "sources (ended1 i s) = sources s"
  "processingModelTurn (ended1 i s) = processingModelTurn s"
  by (auto simp: ended1_def Let_def)

lemma ended2_gate:
  "outputCtx (ended2 i s) = outputCtx s"
  "hasStream (ended2 i s) = hasStream s"
  "activeSources (ended2 i s) = activeSources s - {i}"
  "micEnabled (ended2 i s)
     = (if activeSources s - {i} = {} \<and> \<not> processingModelTurn s then hasStream s
        else micEnabled s)"
  "sources (ended2 i s) = sources s"
  "processingModelTurn (ended2 i s) = processingModelTurn s"
  by (auto simp: ended2_def Let_def)


lemma passive_gate [simp]:
  "outputCtx (onaudioprocess1 f s) = outputCtx s"
  "hasStream (onaudioprocess1 f s) = hasStream s"
  "micEnabled (onaudioprocess1 f s) = micEnabled s"
  "isMuted (onaudioprocess1 f s) = isMuted s"
  "activeSources (onaudioprocess1 f s) = activeSources s"
  "sources (onaudioprocess1 f s) = sources s"
  "processingModelTurn (onaudioprocess1 f s) = processingModelTurn s"
  "outputCtx (onaudioprocess2 f s) = outputCtx s"
  "hasStream (onaudioprocess2 f s) = hasStream s"
  "micEnabled (onaudioprocess2 f s) = micEnabled s"
  "activeSources (onaudioprocess2 f s) = activeSources s"
  "sources (onaudioprocess2 f s) = sources s"
  "processingModelTurn (onaudioprocess2 f s) = processingModelTurn s"
  "outputCtx (sendTextMessage txt s) = outputCtx s"
  "hasStream (sendTextMessage txt s) = hasStream s"
  "micEnabled (sendTextMessage txt s) = micEnabled s"
  "isMuted (sendTextMessage txt s) = isMuted s"
  "activeSources (sendTextMessage txt s) = activeSources s"
  "sources (sendTextMessage txt s) = sources s"
  "processingModelTurn (sendTextMessage txt s) = processingModelTurn s"
  "outputCtx (sendControlMessage txt s) = outputCtx s"
  "hasStream (sendControlMessage txt s) = hasStream s"
  "micEnabled (sendControlMessage txt s) = micEnabled s"
  "isMuted (sendControlMessage txt s) = isMuted s"
  "processingModelTurn (sendControlMessage txt s) = processingModelTurn s"
  by (simp_all add: onaudioprocess1_def onaudioprocess2_def sendTextMessage_def
      sendControlMessage_def Let_def micEnabled_def hasStream_def)

lemma cleanup_gate [simp]:
  "\<not> outputCtx (cleanup1 now s)" "\<not> micEnabled (cleanup1 now s)"
  "\<not> isMuted (cleanup1 now s)" "activeSources (cleanup1 now s) = {}"
  "length (sources (cleanup1 now s)) = length (sources s)"
  "\<not> outputCtx (cleanup2 now s)" "\<not> micEnabled (cleanup2 now s)"
  "activeSources (cleanup2 now s) = {}"
  "length (sources (cleanup2 now s)) = length (sources s)"
  by (simp_all add: cleanup1_def cleanup2_def micEnabled_def)

lemma run_invariant:
  assumes "\<And>e t. P t \<Longrightarrow> P (step e t)" and "P s"
  shows "P (run step es s)"
  using assms(2)
proof (induction es arbitrary: s)
  case Nil
  then show ?case by simp
next
  case (Cons e es)
  then show ?case by (simp add: assms(1))
qed

lemma stopAll_nth:
  "i < length srcs \<Longrightarrow>
     stopAll now A srcs ! i = (if i \<in> A then stop now (srcs ! i) else srcs ! i)"
  by (simp add: stopAll_def nth_enumerate_eq)

lemma startAt_stopAll [simp]: "map startAt (stopAll now A srcs) = map startAt srcs"
  by (rule nth_equalityI) (simp_all add: stopAll_nth stop_def split: option.split)

lemma tail_sources:
  "sources (tail1 now m s)
     = (if interrupted m then stopAll now (activeSources s) (sources s) else sources s)"
  "sources (tail2 now m s)
     = (if interrupted m \<and> outputCtx s then stopAll now (activeSources s) (sources s)
        else sources s)"
  "sources (tail3 now m s)
     = (if interrupted m then stopAll now (activeSources s) (sources s) else sources s)"
  "activeSources (tail3 now m s) = (if interrupted m then {} else activeSources s)"
  "nextStartTime (tail1 now m s) = (if interrupted m \<and> outputCtx s then now else nextStartTime s)"
  "nextStartTime (tail2 now m s) = (if interrupted m \<and> outputCtx s then now else nextStartTime s)"
  "nextStartTime (tail3 now m s) = (if interrupted m then 0 else nextStartTime s)"
  "outputCtx (tail3 now m s) = outputCtx s"
  "outputNode (tail3 now m s) = outputNode s"
  "audioSpeed (tail3 now m s) = audioSpeed s"
  by (auto simp: tail1_def tail2_def tail3_def stopAudioPlayback1_def Let_def)

lemma prepare3_frame [simp]:
  "sources (prepare3 now s) = sources s"
  "activeSources (prepare3 now s) = activeSources s"
  "nextStartTime (prepare3 now s) = max (nextStartTime s) now"
  "outputCtx (prepare3 now s) = outputCtx s"
  "outputNode (prepare3 now s) = outputNode s"
  "audioSpeed (prepare3 now s) = audioSpeed s"
  by (simp_all add: prepare3_def)

lemma example_messages:
  "audio (audioMsg d) = Decoded d" "\<not> turnComplete (audioMsg d)" "\<not> interrupted (audioMsg d)"
  "audio completion = NoAudio" "turnComplete completion" "\<not> interrupted completion"
  "audio interruption = NoAudio" "\<not> turnComplete interruption" "interrupted interruption"
  by (simp_all add: audioMsg_def completion_def interruption_def noMessage_def)

lemma example_connected:
  "hasStream (connected v)" "micEnabled (connected v)" "outputCtx (connected v)"
  "outputNode (connected v)" "\<not> ignoringNextTurn (connected v)" "\<not> isMuted (connected v)"
  "activeSources (connected v) = {}" "sources (connected v) = []"
  "nextStartTime (connected v) = 0" "audioSpeed (connected v) = v"
  "\<not> processingModelTurn (connected v)"
  by (simp_all add: connected_def hasStream_def micEnabled_def)

section \<open>Suppression of the reply to a control message\<close>

text \<open>
  C9. While the suppression flag is set (and the message does not carry
  \<open>turnComplete\<close>, which clears it first), \<open>onmessage\<close> makes no call to
  \<open>onTranscriptionUpdate\<close>, whether the message carries a transcription of the user
  or of the model; the transcript of \<open>App\<close> stays as it is and the flag stays set.
\<close>

theorem suppressed_message_keeps_transcript:
  assumes "ignoringNextTurn s" and "\<not> turnComplete m"
  shows "updates (onmessage1 now m s) = updates s
       \<and> transcript (onmessage1 now m s) = transcript s
       \<and> ignoringNextTurn (onmessage1 now m s)"
proof -
  have u: "updates (onmessage1 now m s) = updates s"
    using assms by (simp add: onmessage1_def head1_def prepare1_def Let_def split: inline_data.split)
  have i: "ignoringNextTurn (onmessage1 now m s)"
    using assms by (simp add: onmessage1_def head1_def prepare1_def Let_def split: inline_data.split)
  from u i show ?thesis by (simp add: transcript_def)
qed

theorem suppressed_message_keeps_transcript_witness:
  "ignoringNextTurn pendingControl \<and> \<not> turnComplete userSays
   \<and> inputTranscription userSays = ''hello''
   \<and> updates (onmessage1 0 userSays pendingControl) = []
   \<and> transcript (onmessage1 0 userSays pendingControl) = []
   \<and> ignoringNextTurn (onmessage1 0 userSays pendingControl)"
proof -
  have h1: "ignoringNextTurn pendingControl"
    by (simp add: pendingControl_def sendControlMessage_def connected_def)
  have h2: "\<not> turnComplete userSays"
    by (simp add: userSays_def noMessage_def)
  have u: "updates pendingControl = []"
    by (simp add: pendingControl_def sendControlMessage_def connected_def)
  have t: "transcript pendingControl = []"
    by (simp add: transcript_def u)
  show ?thesis
    using suppressed_message_keeps_transcript [OF h1 h2, of 0] h1 h2 u t
    by (simp add: userSays_def noMessage_def)
qed











text \<open>
  C8, as stated, fails: a transcription of the user's speech that arrives while the
  flag is set leaves the flag set, and is itself dropped.
\<close>

theorem early_clearing_counterexample:
  "ignoringNextTurn pendingControl \<and> inputTranscription userSays \<noteq> [] \<and> \<not> turnComplete userSays
   \<and> ignoringNextTurn (onmessage1 0 userSays pendingControl)
   \<and> updates (onmessage1 0 userSays pendingControl) = updates pendingControl"
  by (simp add: pendingControl_def userSays_def noMessage_def sendControlMessage_def
      connected_def onmessage1_def head1_def prepare1_def tail1_def Let_def)

text \<open>
  C8, amended. While the suppression flag is set, the only events that clear it are a
  message carrying \<open>turnComplete\<close> and \<open>cleanup\<close>; every other event, a
  transcription of the user's speech included, leaves it set.
\<close>

theorem suppression_cleared_only_by_turnComplete:
  assumes "ignoringNextTurn s"
  shows "ignoringNextTurn (step1 e s) \<longleftrightarrow>
           \<not> ((\<exists>now m. e = OnMessage now m \<and> turnComplete m) \<or> (\<exists>now. e = Cleanup now))"
  using assms
  by (cases e) (simp_all add: step1_ignoring sendControlMessage_def)

theorem suppression_cleared_only_by_turnComplete_witness:
  "ignoringNextTurn pendingControl
   \<and> ignoringNextTurn (step1 (OnMessage 0 (noMessage\<lparr>inputTranscription := ''hello''\<rparr>)) pendingControl)
   \<and> \<not> ignoringNextTurn (step1 (OnMessage 1 completion) pendingControl)"
proof -
  have h: "ignoringNextTurn pendingControl"
    by (simp add: pendingControl_def sendControlMessage_def connected_def)
  show ?thesis
    using suppression_cleared_only_by_turnComplete [OF h, of "OnMessage 0 (noMessage\<lparr>inputTranscription := ''hello''\<rparr>)"]
      suppression_cleared_only_by_turnComplete [OF h, of "OnMessage 1 completion"] h
    by (simp add: completion_def noMessage_def)
qed

section \<open>The playback speed\<close>






section \<open>Captured frames and the microphone gate\<close>

text \<open>
  C6, as stated, fails in the control-message and mute variants: with the track
  disabled a captured frame is still passed to \<open>sendRealtimeInput\<close>, and its
  loudness, although computed, is not published as the volume.
\<close>

theorem frames_sent_while_muted_counterexample:
  "\<not> micEnabled mutedMic
   \<and> sent (onaudioprocess1 loudFrame mutedMic) = [Media loudFrame]
   \<and> sent (onaudioprocess2 loudFrame mutedMic) = [Media loudFrame]
   \<and> min (rms loudFrame * 5) 1 = 1
   \<and> volume (onaudioprocess1 loudFrame mutedMic) = 0
   \<and> volume (onaudioprocess2 loudFrame mutedMic) = 0"
  by (simp add: micEnabled_def mutedMic_def setMediaMute_def connected_def
      onaudioprocess1_def onaudioprocess2_def loudFrame_def rms_def)

text \<open>
  C6, amended. In the control-message and mute variants \<open>onaudioprocess\<close> sends
  every captured frame, whatever the state of the gate; the loudness of the frame becomes
  the volume only when the track is enabled, otherwise the volume stays as it was.
\<close>

theorem frames_always_sent:
  "sent (onaudioprocess1 inputData s) = sent s @ [Media inputData]
   \<and> volume (onaudioprocess1 inputData s)
       = (if micEnabled s then min (rms inputData * 5) 1 else volume s)
   \<and> sent (onaudioprocess2 inputData s) = sent s @ [Media inputData]
   \<and> volume (onaudioprocess2 inputData s)
       = (if micEnabled s then min (rms inputData * 5) 1 else volume s)"
  by (simp add: onaudioprocess1_def onaudioprocess2_def micEnabled_def)

theorem frames_always_sent_witness:
  "micEnabled (connected 1)
   \<and> sent (onaudioprocess1 loudFrame (connected 1)) = [Media loudFrame]
   \<and> volume (onaudioprocess1 loudFrame (connected 1)) = 1
   \<and> \<not> micEnabled mutedMic
   \<and> sent (onaudioprocess2 loudFrame mutedMic) = [Media loudFrame]
   \<and> volume (onaudioprocess2 loudFrame mutedMic) = 0"
  using frames_always_sent [of loudFrame "connected 1"] frames_always_sent [of loudFrame mutedMic]
  by (simp add: micEnabled_def mutedMic_def setMediaMute_def connected_def loudFrame_def rms_def)

section \<open>The microphone gate within one session\<close>

lemma inv1_connected: "inv1 (connected v)"
  by (simp add: inv1_def connected_def micEnabled_def hasStream_def)

lemma inv2_connected: "inv2 (connected v)"
  by (simp add: inv2_def connected_def micEnabled_def hasStream_def)

lemma inv1_onmessage1: "inv1 s \<Longrightarrow> inv1 (onmessage1 now m s)"
  by (cases "audio m") (auto simp: inv1_def onmessage1_def Let_def)


lemma inv1_step1: "inv1 s \<Longrightarrow> inv1 (step1 e s)"
proof (cases e)
  case (OnMessage now m)
  assume "inv1 s"
  then show ?thesis by (simp add: OnMessage inv1_onmessage1)
next
  case (Ended i)
  assume "inv1 s"
  then show ?thesis by (auto simp: Ended inv1_def ended1_gate)
next
  case (ToggleMute now)
  assume "inv1 s"
  then show ?thesis by (auto simp: ToggleMute inv1_def toggleMute1_gate)
qed (simp_all add: inv1_def)

lemma inv2_onmessage2: "inv2 s \<Longrightarrow> inv2 (onmessage2 now m s)"
  by (cases "audio m") (auto simp: inv2_def onmessage2_def Let_def)

lemma inv2_step2: "inv2 s \<Longrightarrow> inv2 (step2 e s)"
proof (cases e)
  case (OnMessage now m)
  assume "inv2 s"
  then show ?thesis by (simp add: OnMessage inv2_onmessage2)
next
  case (Ended i)
  assume "inv2 s"
  then show ?thesis by (auto simp: Ended inv2_def ended2_gate)
next
  case (ToggleMute now)
  assume "inv2 s"
  then show ?thesis by (auto simp: ToggleMute inv2_def toggleMute2_gate)
qed (simp_all add: inv2_def)

lemma inv1_run: "inv1 (run step1 es (connected v))"
  by (rule run_invariant [where P = inv1]) (simp_all add: inv1_step1 inv1_connected)

lemma setMediaMute_when_muted:
  assumes "inv1 s" and "isMuted s"
  shows "setMediaMute True s = s"
proof (cases "stream s")
  case None
  then show ?thesis by (simp add: setMediaMute_def)
next
  case (Some enabled)
  with assms have "enabled = False" by (simp add: inv1_def micEnabled_def)
  with Some assms(2) show ?thesis by (simp add: setMediaMute_def)
qed

lemma inv2_run: "inv2 (run step2 es (connected v))"
  by (rule run_invariant [where P = inv2]) (simp_all add: inv2_step2 inv2_connected)

section \<open>When the microphone is opened again\<close>

lemma fst_observe [simp]: "fst (observe step p e) = step e (fst p)"
  by (simp add: observe_def Let_def)

lemma snd_observe:
  "snd (observe step p e)
     = (if length (sources (step e (fst p))) \<noteq> length (sources (fst p)) then False
        else (case e of OnMessage now m \<Rightarrow> turnComplete m \<or> snd p | _ \<Rightarrow> snd p))"
  by (simp add: observe_def Let_def)

lemma fst_foldl_observe: "fst (foldl (observe step) p es) = run step es (fst p)"
  by (induction es arbitrary: p) simp_all

lemma completeSignalled_snoc:
  "completeSignalled step (es @ [e]) s
     = snd (observe step (foldl (observe step) (s, False) es) e)"
  by (simp add: completeSignalled_def)

lemma onmessage1_track:
  assumes "inv1 s" and "activeSources s \<noteq> {} \<and> \<not> processingModelTurn s \<longrightarrow> c"
  shows "activeSources (onmessage1 now m s) \<noteq> {} \<and> \<not> processingModelTurn (onmessage1 now m s)
         \<longrightarrow> snd (observe step1 (s, c) (OnMessage now m))"
  using assms
  by (cases "audio m") (auto simp: snd_observe onmessage1_def Let_def)

lemma tracked1_observe: "tracked inv1 p \<Longrightarrow> tracked inv1 (observe step1 p e)"
proof (cases e)
  case (OnMessage now m)
  assume "tracked inv1 p"
  then show ?thesis
    using onmessage1_track [of "fst p" "snd p" now m]
    by (simp add: tracked_def OnMessage inv1_onmessage1)
next
  case (Ended i)
  assume "tracked inv1 p"
  then show ?thesis
    using inv1_step1 [of "fst p" e]
    by (auto simp: tracked_def Ended snd_observe ended1_gate)
next
  case (ToggleMute now)
  assume "tracked inv1 p"
  then show ?thesis
    using inv1_step1 [of "fst p" e]
    by (simp add: tracked_def ToggleMute snd_observe toggleMute1_gate)
next
  case (SendControlMessage msg)
  assume "tracked inv1 p"
  then show ?thesis
    using inv1_step1 [of "fst p" e]
    by (simp add: tracked_def SendControlMessage snd_observe)
next
  case (SendTextMessage msg)
  assume "tracked inv1 p"
  then show ?thesis
    using inv1_step1 [of "fst p" e]
    by (simp add: tracked_def SendTextMessage snd_observe)
next
  case (AudioProcess f)
  assume "tracked inv1 p"
  then show ?thesis
    using inv1_step1 [of "fst p" e]
    by (simp add: tracked_def AudioProcess snd_observe)
next
  case (SetSpeed x)
  assume "tracked inv1 p"
  then show ?thesis by (simp add: tracked_def SetSpeed snd_observe)
next
  case (Cleanup now)
  assume "tracked inv1 p"
  then show ?thesis
    using inv1_step1 [of "fst p" e]
    by (simp add: tracked_def Cleanup snd_observe)
qed

lemma tracked_foldl:
  assumes "\<And>p e. tracked P p \<Longrightarrow> tracked P (observe step p e)" and "tracked P p"
  shows "tracked P (foldl (observe step) p es)"
  using assms(2) by (induction es arbitrary: p) (simp_all add: assms(1))

lemma tracked1_run: "tracked inv1 (foldl (observe step1) (connected v, False) es)"
  by (rule tracked_foldl)
     (erule tracked1_observe, simp add: tracked_def inv1_connected, simp add: connected_def)

lemma onmessage1_reopen:
  assumes "\<not> interrupted m" and "\<not> micEnabled s" and "micEnabled (onmessage1 now m s)"
  shows "turnComplete m \<and> activeSources (onmessage1 now m s) = {}
       \<and> length (sources (onmessage1 now m s)) = length (sources s)"
  using assms
  by (cases "audio m") (auto simp: onmessage1_def Let_def split: if_splits)

lemma reopen1:
  assumes "tracked inv1 p" and "ordinary e (fst p)"
    and "\<not> micEnabled (fst p)" and "micEnabled (step1 e (fst p))"
  shows "activeSources (step1 e (fst p)) = {} \<and> snd (observe step1 p e)"
proof (cases e)
  case (OnMessage now m)
  show ?thesis
    using assms onmessage1_reopen [of m "fst p" now]
    by (simp add: OnMessage snd_observe)
next
  case (Ended i)
  show ?thesis
    using assms by (auto simp: Ended tracked_def snd_observe ended1_gate split: if_splits)
next
  case (ToggleMute now)
  then show ?thesis using assms by simp
qed (use assms in simp_all)


lemma onmessage2_track:
  assumes "inv2 s" and "activeSources s \<noteq> {} \<and> \<not> processingModelTurn s \<longrightarrow> c"
  shows "activeSources (onmessage2 now m s) \<noteq> {} \<and> \<not> processingModelTurn (onmessage2 now m s)
         \<longrightarrow> snd (observe step2 (s, c) (OnMessage now m))"
  using assms
  by (cases "audio m") (auto simp: snd_observe inv2_def onmessage2_def Let_def)

lemma tracked2_observe: "tracked inv2 p \<Longrightarrow> tracked inv2 (observe step2 p e)"
proof (cases e)
  case (OnMessage now m)
  assume "tracked inv2 p"
  then show ?thesis
    using onmessage2_track [of "fst p" "snd p" now m]
    by (simp add: tracked_def OnMessage inv2_onmessage2)
next
  case (Ended i)
  assume "tracked inv2 p"
  then show ?thesis
    using inv2_step2 [of "fst p" e]
    by (auto simp: tracked_def Ended snd_observe ended2_gate)
next
  case (ToggleMute now)
  assume "tracked inv2 p"
  then show ?thesis
    using inv2_step2 [of "fst p" e]
    by (auto simp: tracked_def inv2_def ToggleMute snd_observe toggleMute2_gate)
next
  case (SendControlMessage msg)
  assume "tracked inv2 p"
  then show ?thesis by (simp add: tracked_def SendControlMessage snd_observe)
next
  case (SendTextMessage msg)
  assume "tracked inv2 p"
  then show ?thesis
    using inv2_step2 [of "fst p" e]
    by (simp add: tracked_def SendTextMessage snd_observe)
next
  case (AudioProcess f)
  assume "tracked inv2 p"
  then show ?thesis
    using inv2_step2 [of "fst p" e]
    by (simp add: tracked_def AudioProcess snd_observe)
next
  case (SetSpeed x)
  assume "tracked inv2 p"
  then show ?thesis by (simp add: tracked_def SetSpeed snd_observe)
next
  case (Cleanup now)
  assume "tracked inv2 p"
  then show ?thesis
    using inv2_step2 [of "fst p" e]
    by (simp add: tracked_def Cleanup snd_observe)
qed

lemma tracked2_run: "tracked inv2 (foldl (observe step2) (connected v, False) es)"
  by (rule tracked_foldl)
     (erule tracked2_observe, simp add: tracked_def inv2_connected, simp add: connected_def)

lemma onmessage2_reopen:
  assumes "\<not> interrupted m" and "\<not> micEnabled s" and "micEnabled (onmessage2 now m s)"
  shows "turnComplete m \<and> activeSources (onmessage2 now m s) = {}
       \<and> length (sources (onmessage2 now m s)) = length (sources s)"
  using assms
  by (cases "audio m") (auto simp: onmessage2_def Let_def split: if_splits)

lemma reopen2:
  assumes "tracked inv2 p" and "ordinary e (fst p)"
    and "\<not> micEnabled (fst p)" and "micEnabled (step2 e (fst p))"
  shows "activeSources (step2 e (fst p)) = {} \<and> snd (observe step2 p e)"
proof (cases e)
  case (OnMessage now m)
  show ?thesis
    using assms onmessage2_reopen [of m "fst p" now]
    by (simp add: OnMessage snd_observe)
next
  case (Ended i)
  show ?thesis
    using assms by (auto simp: Ended tracked_def snd_observe ended2_gate split: if_splits)
next
  case (ToggleMute now)
  then show ?thesis using assms by simp
qed (use assms in simp_all)

text \<open>
  C5. In the control-message and mute variants, take any state reached from
  \<open>connected\<close> in which the track is disabled, and any event that is not an
  interruption. If the event leaves the track enabled, then afterwards no source is
  active and the session has signalled the end of the reply since the last source was
  created. The drain of the queue alone does not open the microphone: while
  \<open>processingModelTurnRef\<close> is true the \<open>ended\<close> listener leaves the gate as
  it is.
\<close>

theorem mic_reopens_only_after_completion:
  "(ordinary e (run step1 es (connected v))
      \<and> \<not> micEnabled (run step1 es (connected v))
      \<and> micEnabled (step1 e (run step1 es (connected v)))
    \<longrightarrow> activeSources (step1 e (run step1 es (connected v))) = {}
        \<and> completeSignalled step1 (es @ [e]) (connected v))
   \<and> (processingModelTurn (run step1 es (connected v))
    \<longrightarrow> micEnabled (ended1 i (run step1 es (connected v)))
          = micEnabled (run step1 es (connected v)))
   \<and> (ordinary e (run step2 es (connected v))
      \<and> \<not> micEnabled (run step2 es (connected v))
      \<and> micEnabled (step2 e (run step2 es (connected v)))
    \<longrightarrow> activeSources (step2 e (run step2 es (connected v))) = {}
        \<and> completeSignalled step2 (es @ [e]) (connected v))
   \<and> (processingModelTurn (run step2 es (connected v))
    \<longrightarrow> micEnabled (ended2 i (run step2 es (connected v)))
          = micEnabled (run step2 es (connected v)))"
proof -
  have 1: "ordinary e (run step1 es (connected v))
      \<and> \<not> micEnabled (run step1 es (connected v))
      \<and> micEnabled (step1 e (run step1 es (connected v)))
    \<longrightarrow> activeSources (step1 e (run step1 es (connected v))) = {}
        \<and> completeSignalled step1 (es @ [e]) (connected v)"
    using reopen1 [OF tracked1_run, of e v es]
    by (simp add: fst_foldl_observe completeSignalled_snoc)
  have 2: "ordinary e (run step2 es (connected v))
      \<and> \<not> micEnabled (run step2 es (connected v))
      \<and> micEnabled (step2 e (run step2 es (connected v)))
    \<longrightarrow> activeSources (step2 e (run step2 es (connected v))) = {}
        \<and> completeSignalled step2 (es @ [e]) (connected v)"
    using reopen2 [OF tracked2_run, of e v es]
    by (simp add: fst_foldl_observe completeSignalled_snoc)
  have 3: "processingModelTurn (run step1 es (connected v))
    \<longrightarrow> micEnabled (ended1 i (run step1 es (connected v)))
          = micEnabled (run step1 es (connected v))"
    by (simp add: ended1_gate)
  have 4: "processingModelTurn (run step2 es (connected v))
    \<longrightarrow> micEnabled (ended2 i (run step2 es (connected v)))
          = micEnabled (run step2 es (connected v))"
    by (simp add: ended2_gate)
  from 1 3 2 4 show ?thesis by (intro conjI)
qed


theorem mic_reopens_only_after_completion_witness:
  "ordinary (Ended 0) (run step1 answered (connected 1))
   \<and> \<not> micEnabled (run step1 answered (connected 1))
   \<and> micEnabled (step1 (Ended 0) (run step1 answered (connected 1)))
   \<and> activeSources (step1 (Ended 0) (run step1 answered (connected 1))) = {}
   \<and> completeSignalled step1 (answered @ [Ended 0]) (connected 1)
   \<and> processingModelTurn (run step1 [OnMessage 0 (audioMsg 2)] (connected 1))
   \<and> \<not> micEnabled (ended1 0 (run step1 [OnMessage 0 (audioMsg 2)] (connected 1)))
   \<and> ordinary (Ended 0) (run step2 answered (connected 1))
   \<and> \<not> micEnabled (run step2 answered (connected 1))
   \<and> micEnabled (step2 (Ended 0) (run step2 answered (connected 1)))
   \<and> completeSignalled step2 (answered @ [Ended 0]) (connected 1)"
proof -
  have c: "hasStream (connected 1)" "micEnabled (connected 1)" "outputCtx (connected 1)"
    "outputNode (connected 1)" "\<not> ignoringNextTurn (connected 1)" "\<not> isMuted (connected 1)"
    "activeSources (connected 1) = {}" "sources (connected 1) = []"
    by (simp_all add: connected_def hasStream_def micEnabled_def)
  have m: "audio (audioMsg 2) = Decoded 2" "\<not> turnComplete (audioMsg 2)"
    "\<not> interrupted (audioMsg 2)" "audio completion = NoAudio" "turnComplete completion"
    "\<not> interrupted completion"
    by (simp_all add: audioMsg_def completion_def noMessage_def)
  have a1: "activeSources (run step1 answered (connected 1)) = {0}"
    and g1: "\<not> micEnabled (run step1 answered (connected 1))"
    and p1: "\<not> processingModelTurn (run step1 answered (connected 1))"
    and h1: "hasStream (run step1 answered (connected 1))"
    and q1: "processingModelTurn (run step1 [OnMessage 0 (audioMsg 2)] (connected 1))"
    and r1: "\<not> micEnabled (run step1 [OnMessage 0 (audioMsg 2)] (connected 1))"
    by (simp_all add: answered_def onmessage1_def Let_def c m)
  have a2: "activeSources (run step2 answered (connected 1)) = {0}"
    and g2: "\<not> micEnabled (run step2 answered (connected 1))"
    and p2: "\<not> processingModelTurn (run step2 answered (connected 1))"
    and h2: "hasStream (run step2 answered (connected 1))"
    by (simp_all add: answered_def onmessage2_def Let_def c m)
  have o1: "ordinary (Ended 0) (run step1 answered (connected 1))" by (simp add: a1)
  have o2: "ordinary (Ended 0) (run step2 answered (connected 1))" by (simp add: a2)
  have e1: "micEnabled (step1 (Ended 0) (run step1 answered (connected 1)))"
    by (simp add: ended1_gate a1 p1 h1)
  have e2: "micEnabled (step2 (Ended 0) (run step2 answered (connected 1)))"
    by (simp add: ended2_gate a2 p2 h2)
  have d1: "\<not> micEnabled (ended1 0 (run step1 [OnMessage 0 (audioMsg 2)] (connected 1)))"
    using q1 r1 by (simp add: ended1_gate)
  show ?thesis
    using mic_reopens_only_after_completion [of "Ended 0" answered 1 0]
      o1 g1 e1 q1 d1 o2 g2 e2
    by simp
qed

section \<open>Flushing the playback\<close>

lemma wellTracked_empty: "activeSources s = {} \<Longrightarrow> wellTracked s"
  by (simp add: wellTracked_def)

lemma wellTracked_startSource: "wellTracked s \<Longrightarrow> wellTracked (startSource d r s)"
  by (auto simp: wellTracked_def nth_append)

lemma wellTracked_advance [simp]:
  "wellTracked (s\<lparr>nextStartTime := x\<rparr>) = wellTracked s"
  by (simp add: wellTracked_def)

lemma wellTracked_ended:
  "wellTracked s \<Longrightarrow> activeSources t = activeSources s - {i} \<Longrightarrow> sources t = sources s \<Longrightarrow>
     wellTracked t"
  by (simp add: wellTracked_def)

lemma wellTracked_tail:
  assumes "wellTracked s"
  shows "wellTracked (tail1 now m s)" and "wellTracked (tail2 now m s)"
    and "wellTracked (tail3 now m s)"
proof -
  show "wellTracked (tail1 now m s)"
    using assms by (cases "interrupted m") (simp_all add: wellTracked_def tail_sources)
  show "wellTracked (tail2 now m s)"
    using assms
    by (cases "interrupted m \<and> outputCtx s") (auto simp: wellTracked_def tail_sources)
  show "wellTracked (tail3 now m s)"
    using assms by (cases "interrupted m") (simp_all add: wellTracked_def tail_sources)
qed

lemma wellTracked_pieces:
  "wellTracked (head1 m s) = wellTracked s"
  "wellTracked (prepare1 now s) = wellTracked s"
  "wellTracked (head2 m s) = wellTracked s"
  "wellTracked (prepare2 now s) = wellTracked s"
  "wellTracked (prepare3 now s) = wellTracked s"
  "wellTracked (transcription m s) = wellTracked s"
  by (simp_all add: wellTracked_def)

lemma wellTracked_onmessage1:
  assumes "wellTracked s"
  shows "wellTracked (onmessage1 now m s)"
  using assms
  by (cases "audio m")
     (simp_all add: onmessage1_def Let_def wellTracked_pieces
        wellTracked_tail wellTracked_startSource)

lemma wellTracked_onmessage2:
  assumes "wellTracked s"
  shows "wellTracked (onmessage2 now m s)"
  using assms
  by (cases "audio m")
     (simp_all add: onmessage2_def Let_def wellTracked_pieces
        wellTracked_tail wellTracked_startSource)

lemma wellTracked_onmessage3:
  assumes "wellTracked s"
  shows "wellTracked (onmessage3 now m s)"
  using assms
  by (cases "audio m")
     (simp_all add: onmessage3_def Let_def wellTracked_pieces
        wellTracked_tail wellTracked_startSource)

lemma wellTracked_step:
  assumes "wellTracked s"
  shows "wellTracked (step1 e s)" and "wellTracked (step2 e s)" and "wellTracked (step3 e s)"
proof -
  show "wellTracked (step1 e s)"
  proof (cases e)
    case (OnMessage now m)
    then show ?thesis using assms by (simp add: wellTracked_onmessage1 wellTracked_onmessage2 wellTracked_onmessage3)
  next
    case (Ended i)
    then show ?thesis using assms by (auto intro: wellTracked_ended simp: ended1_gate)
  next
    case (ToggleMute now)
    then show ?thesis by (simp add: wellTracked_empty toggleMute1_gate)
  next
    case (Cleanup now)
    then show ?thesis by (simp add: wellTracked_empty)
  qed (use assms in \<open>simp_all add: wellTracked_def sendControlMessage_def\<close>)
  show "wellTracked (step2 e s)"
  proof (cases e)
    case (OnMessage now m)
    then show ?thesis using assms by (simp add: wellTracked_onmessage1 wellTracked_onmessage2 wellTracked_onmessage3)
  next
    case (Ended i)
    then show ?thesis using assms by (auto intro: wellTracked_ended simp: ended2_gate)
  next
    case (ToggleMute now)
    then show ?thesis
      using assms
      by (cases "outputCtx s")
         (simp_all add: wellTracked_def toggleMute2_def toggle_case stopAudioPlayback2_def)
  next
    case (Cleanup now)
    then show ?thesis by (simp add: wellTracked_empty)
  qed (use assms in \<open>simp_all add: wellTracked_def\<close>)
  show "wellTracked (step3 e s)"
  proof (cases e)
    case (OnMessage now m)
    then show ?thesis using assms by (simp add: wellTracked_onmessage1 wellTracked_onmessage2 wellTracked_onmessage3)
  next
    case (Ended i)
    then show ?thesis using assms by (simp add: wellTracked_def ended3_def)
  next
    case (AudioProcess f)
    then show ?thesis using assms by (simp add: wellTracked_def onaudioprocess3_def)
  next
    case (SetSpeed x)
    then show ?thesis using assms by (simp add: wellTracked_def setSpeed_def)
  next
    case (Cleanup now)
    then show ?thesis by (simp add: wellTracked_def cleanup3_def)
  qed (use assms in simp_all)
qed

lemma wellTracked_run:
  "wellTracked (run step1 es (connected v))"
  "wellTracked (run step2 es (connected v))"
  "wellTracked (run step3 es (connected v))"
  by (rule run_invariant [where P = wellTracked];
      simp add: wellTracked_step wellTracked_empty connected_def)+

lemma silent_after_stopAll:
  assumes "wellTracked s" and "i \<in> activeSources s"
  shows "silentFrom now (stopAll now (activeSources s) (sources s) ! i)"
  using assms by (simp add: wellTracked_def stopAll_nth silentFrom_def stop_def)

lemma flushed1: "wellTracked s \<Longrightarrow> flushed now s (stopAudioPlayback1 now s)"
  by (simp add: flushed_def silent_after_stopAll)

lemma flushed2: "wellTracked s \<Longrightarrow> inv2 s \<Longrightarrow> flushed now s (stopAudioPlayback2 now s)"
  by (cases "outputCtx s") (auto simp: flushed_def silent_after_stopAll inv2_def)

lemma flushed3:
  "wellTracked s \<Longrightarrow> interrupted m \<Longrightarrow> flushed now s (tail3 now m s)"
  by (simp add: flushed_def silent_after_stopAll tail_sources)

text \<open>
  C2, as stated, fails for the speed variant: its \<open>interrupted\<close> block sets the
  cursor to 0, not to the current instant of the output clock.
\<close>

theorem flush_resets_to_now_counterexample:
  "interrupted interruption
   \<and> activeSources playing3 = {0}
   \<and> activeSources (onmessage3 5 interruption playing3) = {}
   \<and> nextStartTime (onmessage3 5 interruption playing3) = 0
   \<and> nextStartTime (onmessage3 5 interruption playing3) \<noteq> 5"
  by (simp add: playing3_def onmessage3_def Let_def tail_sources example_messages
      example_connected)

text \<open>
  C2, amended. In every state reached from \<open>connected\<close>, a flush leaves no source
  active and stops every source that was active, so that none of them gives output after
  the current instant. \<open>stopAudioPlayback\<close> (control-message and mute variants)
  sets the cursor to the current instant when the output context exists; the
  \<open>interrupted\<close> block of the speed variant sets it to 0.
\<close>

theorem flush_stops_everything:
  "flushed now (run step1 es (connected v)) (stopAudioPlayback1 now (run step1 es (connected v)))
   \<and> (outputCtx (run step1 es (connected v)) \<longrightarrow>
        nextStartTime (stopAudioPlayback1 now (run step1 es (connected v))) = now)
   \<and> flushed now (run step2 es (connected v)) (stopAudioPlayback2 now (run step2 es (connected v)))
   \<and> (outputCtx (run step2 es (connected v)) \<longrightarrow>
        nextStartTime (stopAudioPlayback2 now (run step2 es (connected v))) = now)
   \<and> (interrupted m \<longrightarrow>
        flushed now (run step3 es (connected v)) (tail3 now m (run step3 es (connected v)))
        \<and> nextStartTime (tail3 now m (run step3 es (connected v))) = 0)"
proof -
  have 1: "flushed now (run step1 es (connected v))
             (stopAudioPlayback1 now (run step1 es (connected v)))"
    by (rule flushed1) (rule wellTracked_run)
  have 2: "flushed now (run step2 es (connected v))
             (stopAudioPlayback2 now (run step2 es (connected v)))"
    by (rule flushed2) (rule wellTracked_run, rule inv2_run)
  have 3: "interrupted m \<Longrightarrow>
        flushed now (run step3 es (connected v)) (tail3 now m (run step3 es (connected v)))"
    by (rule flushed3) (rule wellTracked_run)
  have 4: "outputCtx (run step1 es (connected v)) \<longrightarrow>
        nextStartTime (stopAudioPlayback1 now (run step1 es (connected v))) = now"
    by (simp add: stopAudioPlayback1_def Let_def)
  show ?thesis using 1 2 3 4 by (simp add: tail_sources)
qed


theorem flush_stops_everything_witness:
  "activeSources (run step1 [OnMessage 0 (audioMsg 2)] (connected 1)) = {0}
   \<and> flushed 1 (run step1 [OnMessage 0 (audioMsg 2)] (connected 1))
        (stopAudioPlayback1 1 (run step1 [OnMessage 0 (audioMsg 2)] (connected 1)))
   \<and> activeSources (stopAudioPlayback1 1 (run step1 [OnMessage 0 (audioMsg 2)] (connected 1))) = {}
   \<and> map stoppedAt
        (sources (stopAudioPlayback1 1 (run step1 [OnMessage 0 (audioMsg 2)] (connected 1))))
       = [Some 1]
   \<and> nextStartTime (stopAudioPlayback1 1 (run step1 [OnMessage 0 (audioMsg 2)] (connected 1))) = 1
   \<and> interrupted interruption
   \<and> flushed 1 (run step3 [OnMessage 0 (audioMsg 2)] (connected 1))
        (tail3 1 interruption (run step3 [OnMessage 0 (audioMsg 2)] (connected 1)))
   \<and> nextStartTime (tail3 1 interruption (run step3 [OnMessage 0 (audioMsg 2)] (connected 1))) = 0"
proof -
  have a: "activeSources (onmessage1 0 (audioMsg 2) (connected 1)) = {0}"
    and c: "outputCtx (onmessage1 0 (audioMsg 2) (connected 1))"
    and s: "sources (onmessage1 0 (audioMsg 2) (connected 1))
            = [\<lparr>startAt = 0, duration = 2, playbackRate = 1, stoppedAt = None\<rparr>]"
    by (simp_all add: onmessage1_def Let_def tail_sources example_messages example_connected)
  have st: "map stoppedAt
        (sources (stopAudioPlayback1 1 (onmessage1 0 (audioMsg 2) (connected 1))))
       = [Some 1]"
    by (simp add: a s stopAll_def stop_def)
  show ?thesis
    using flush_stops_everything [of 1 "[OnMessage 0 (audioMsg 2)]" 1 interruption] a c st
    by (simp add: example_messages flushed_def)
qed

section \<open>The microphone gate while the agent is heard\<close>

text \<open>
  Within one session, and with every \<open>onmessage\<close> resuming from its \<open>await\<close>
  before another handler runs: in every state the control-message variant or the mute
  variant reaches from \<open>connected\<close>, the track of the microphone is disabled while
  sources are active; and an interruption, by \<open>toggleMute\<close> or by the
  \<open>interrupted\<close> block of \<open>onmessage\<close>, stops every active source, leaves none
  active and enables the track within the same handler.
\<close>

lemma flushed_same:
  "flushed now s t \<Longrightarrow> activeSources t' = activeSources t \<Longrightarrow> sources t' = sources t \<Longrightarrow>
     flushed now s t'"
  by (simp add: flushed_def)

lemma interrupt1:
  assumes "inv1 s" and "wellTracked s" and "activeSources s \<noteq> {}"
  shows "\<not> micEnabled s
       \<and> flushed now s (toggleMute1 now s)
       \<and> micEnabled (toggleMute1 now s)
       \<and> (interrupted m \<longrightarrow> flushed now s (tail1 now m s) \<and> micEnabled (tail1 now m s))"
proof -
  have t: "toggleMute1 now s = setMediaMute False (stopAudioPlayback1 now s)"
    using assms(3) by (simp add: toggleMute1_def)
  have f1: "flushed now s (toggleMute1 now s)"
    unfolding t by (rule flushed_same [OF flushed1 [OF assms(2)]]) simp_all
  have f2: "interrupted m \<Longrightarrow> flushed now s (tail1 now m s)"
    by (rule flushed_same [OF flushed1 [OF assms(2)]]) (simp_all add: tail_sources)
  from assms(1,3) f1 f2 show ?thesis by (simp add: inv1_def toggleMute1_gate)
qed

lemma interrupt2:
  assumes "inv2 s" and "wellTracked s" and "activeSources s \<noteq> {}"
  shows "\<not> micEnabled s
       \<and> flushed now s (toggleMute2 now s)
       \<and> micEnabled (toggleMute2 now s)
       \<and> (interrupted m \<longrightarrow> flushed now s (tail2 now m s) \<and> micEnabled (tail2 now m s))"
proof -
  from assms(1,3) have c: "outputCtx s" by (simp add: inv2_def)
  have t: "toggleMute2 now s = setMediaMute False (stopAudioPlayback2 now s)"
    using assms(3) by (simp add: toggleMute2_def)
  have f1: "flushed now s (toggleMute2 now s)"
    unfolding t by (rule flushed_same [OF flushed2 [OF assms(2,1)]]) simp_all
  have f2: "interrupted m \<Longrightarrow> flushed now s (tail2 now m s)"
    using c by (intro flushed_same [OF flushed2 [OF assms(2,1)]]) (simp_all add: tail_sources)
  from assms(1,3) f1 f2 show ?thesis by (simp add: inv2_def toggleMute2_gate)
qed

lemma gate_closed_within_session:
  "(activeSources (run step1 es (connected v)) \<noteq> {} \<longrightarrow>
      \<not> micEnabled (run step1 es (connected v))
      \<and> flushed now (run step1 es (connected v)) (toggleMute1 now (run step1 es (connected v)))
      \<and> micEnabled (toggleMute1 now (run step1 es (connected v)))
      \<and> (interrupted m \<longrightarrow>
           flushed now (run step1 es (connected v)) (tail1 now m (run step1 es (connected v)))
           \<and> micEnabled (tail1 now m (run step1 es (connected v)))))
   \<and> (activeSources (run step2 es (connected v)) \<noteq> {} \<longrightarrow>
      \<not> micEnabled (run step2 es (connected v))
      \<and> flushed now (run step2 es (connected v)) (toggleMute2 now (run step2 es (connected v)))
      \<and> micEnabled (toggleMute2 now (run step2 es (connected v)))
      \<and> (interrupted m \<longrightarrow>
           flushed now (run step2 es (connected v)) (tail2 now m (run step2 es (connected v)))
           \<and> micEnabled (tail2 now m (run step2 es (connected v)))))"
  by (rule conjI; rule impI)
     (erule interrupt1 [OF inv1_run wellTracked_run(1)],
      erule interrupt2 [OF inv2_run wellTracked_run(2)])

text \<open>
  A chunk that is enqueued is handled by \<open>head\<close>, \<open>prepare\<close>, the
  \<open>await\<close>, and \<open>resume\<close>.
\<close>

lemma onmessage1_resumes:
  assumes "audio m = Decoded d" and "outputCtx s" and "outputNode s"
    and "\<not> ignoringNextTurn (head1 m s)"
  shows "onmessage1 now m s = resume1 d now m (prepare1 now (head1 m s))"
proof -
  have "outputCtx (head1 m s)" and "outputNode (head1 m s)"
    using assms(2,3) by simp_all
  with assms(1,4) show ?thesis
    unfolding onmessage1_def resume1_def Let_def by auto
qed

lemma onmessage2_resumes:
  assumes "audio m = Decoded d" and "outputCtx s" and "outputNode s"
  shows "onmessage2 now m s = resume2 d now m (prepare2 now (head2 m s))"
proof -
  have "outputCtx (head2 m s)" and "outputNode (head2 m s)"
    using assms(2,3) by simp_all
  with assms(1) show ?thesis
    unfolding onmessage2_def resume2_def Let_def by simp
qed

text \<open>
  C4 does not hold of the code: there are states in which a source is active, scheduled
  and never stopped, while the track of the microphone is enabled, and no interruption
  has taken place. The code means to keep the track disabled (comment of line 250:
  \<open>Audio incoming -> Mute mic to prevent echo/feedback\<close>), and \<open>onerror\<close>,
  unlike \<open>onclose\<close>, does call \<open>cleanup\<close>.

  \<^item> \<open>reconnected1\<close>, \<open>reconnected2\<close>: \<open>onclose\<close> does no cleanup, so the
    sources of the closed session stay in \<open>activeSourcesRef\<close> and keep playing; a
    new \<open>connect\<close> stores a fresh stream and calls \<open>setMediaMute(false)\<close>.
  \<^item> \<open>overtaken1\<close>, \<open>overtaken2\<close>: \<open>onmessage\<close> disables the track before
    its \<open>await\<close> and adds the source after it; a message with \<open>turnComplete\<close>
    handled in between finds no active source and enables the track, and the resumed
    handler starts the source without disabling the track again.
\<close>

theorem mic_open_while_playing:
  "activeSources reconnected1 = {0} \<and> micEnabled reconnected1
   \<and> map scheduled (sources reconnected1) = [(0, 5, 1)]
   \<and> map stoppedAt (sources reconnected1) = [None]
   \<and> activeSources reconnected2 = {0} \<and> micEnabled reconnected2
   \<and> map scheduled (sources reconnected2) = [(0, 5, 1)]
   \<and> map stoppedAt (sources reconnected2) = [None]
   \<and> activeSources overtaken1 = {0} \<and> micEnabled overtaken1
   \<and> map scheduled (sources overtaken1) = [(0, 5, 1)]
   \<and> map stoppedAt (sources overtaken1) = [None]
   \<and> activeSources overtaken2 = {0} \<and> micEnabled overtaken2
   \<and> map scheduled (sources overtaken2) = [(0, 5, 1)]
   \<and> map stoppedAt (sources overtaken2) = [None]"
  by (simp add: reconnected1_def reconnected2_def overtaken1_def overtaken2_def
      micEnabled_def scheduled_def connect1_def connect2_def onclose_def resume1_def resume2_def
      onmessage1_def onmessage2_def head1_def head2_def prepare1_def prepare2_def
      tail1_def tail2_def transcription_def startSource_def setMediaMute_def
      completion_def audioMsg_def noMessage_def connected_def Let_def)

section \<open>The cursor of the playback clock\<close>

lemma cursor_onmessage:
  assumes "\<not> interrupted m" and "\<forall>d. audio m = Decoded d \<longrightarrow> 0 \<le> d"
  shows "nextStartTime s \<le> nextStartTime (onmessage1 now m s)"
    and "nextStartTime s \<le> nextStartTime (onmessage2 now m s)"
    and "0 < audioSpeed s \<Longrightarrow> nextStartTime s \<le> nextStartTime (onmessage3 now m s)"
proof -
  show "nextStartTime s \<le> nextStartTime (onmessage1 now m s)"
    using assms by (cases "audio m") (auto simp: onmessage1_def Let_def tail_sources)
  show "nextStartTime s \<le> nextStartTime (onmessage2 now m s)"
    using assms by (cases "audio m") (auto simp: onmessage2_def Let_def tail_sources)
  show "0 < audioSpeed s \<Longrightarrow> nextStartTime s \<le> nextStartTime (onmessage3 now m s)"
    using assms
    by (cases "audio m") (auto simp: onmessage3_def Let_def tail_sources intro: add_increasing2)
qed

lemma new_starts:
  shows "\<exists>new. map startAt (sources (onmessage1 now m s)) = map startAt (sources s) @ new
           \<and> (\<forall>x\<in>set new. now \<le> x)"
    and "\<exists>new. map startAt (sources (onmessage2 now m s)) = map startAt (sources s) @ new
           \<and> (\<forall>x\<in>set new. now \<le> x)"
    and "\<exists>new. map startAt (sources (onmessage3 now m s)) = map startAt (sources s) @ new
           \<and> (\<forall>x\<in>set new. now \<le> x)"
proof -
  show "\<exists>new. map startAt (sources (onmessage1 now m s)) = map startAt (sources s) @ new
           \<and> (\<forall>x\<in>set new. now \<le> x)"
    by (cases "audio m") (simp_all add: onmessage1_def Let_def tail_sources)
  show "\<exists>new. map startAt (sources (onmessage2 now m s)) = map startAt (sources s) @ new
           \<and> (\<forall>x\<in>set new. now \<le> x)"
    by (cases "audio m") (simp_all add: onmessage2_def Let_def tail_sources)
  show "\<exists>new. map startAt (sources (onmessage3 now m s)) = map startAt (sources s) @ new
           \<and> (\<forall>x\<in>set new. now \<le> x)"
    by (cases "audio m") (simp_all add: onmessage3_def Let_def tail_sources)
qed

lemma start_of_new:
  assumes "\<exists>new. map startAt ys = map startAt xs @ new \<and> (\<forall>x\<in>set new. now \<le> x)"
    and "length xs \<le> i" and "i < length ys"
  shows "now \<le> startAt (ys ! i)"
proof -
  from assms(1) obtain new
    where e: "map startAt ys = map startAt xs @ new" and n: "\<forall>x\<in>set new. now \<le> x" by blast
  from e have l: "length ys = length xs + length new"
    by (metis length_append length_map)
  have "startAt (ys ! i) = map startAt ys ! i" using assms(3) by simp
  also have "\<dots> = new ! (i - length xs)" using assms(2) by (simp add: e nth_append)
  finally have "startAt (ys ! i) = new ! (i - length xs)" .
  moreover have "new ! (i - length xs) \<in> set new" using assms(2,3) l by simp
  ultimately show ?thesis using n by simp
qed

text \<open>
  C3, as stated, fails: a flush moves the cursor back, to the current instant in the
  control-message variant and to 0 in the speed variant.
\<close>

theorem cursor_moves_back_counterexample:
  "nextStartTime playing1 = 2
   \<and> nextStartTime (onmessage1 1 interruption playing1) = 1
   \<and> nextStartTime (onmessage1 1 interruption playing1) < nextStartTime playing1
   \<and> nextStartTime playing3 = 2
   \<and> nextStartTime (onmessage3 1 interruption playing3) = 0
   \<and> nextStartTime (onmessage3 1 interruption playing3) < nextStartTime playing3"
  by (simp add: playing1_def playing3_def onmessage1_def onmessage3_def Let_def tail_sources
      example_messages example_connected)

text \<open>
  C3, amended. A message without the \<open>interrupted\<close> flag (so: no flush), whose
  buffer has a non-negative duration, played at a positive speed, never moves the cursor
  back, in any of the three variants; and every source a message creates is scheduled to
  start at or after the instant of the output clock its handler read.
\<close>

theorem cursor_monotone_between_flushes:
  assumes "\<not> interrupted m" and "\<forall>d. audio m = Decoded d \<longrightarrow> 0 \<le> d"
    and "0 < audioSpeed s"
  shows "nextStartTime s \<le> nextStartTime (onmessage1 now m s)
       \<and> nextStartTime s \<le> nextStartTime (onmessage2 now m s)
       \<and> nextStartTime s \<le> nextStartTime (onmessage3 now m s)
       \<and> (\<forall>i. length (sources s) \<le> i \<and> i < length (sources (onmessage1 now m s)) \<longrightarrow>
              now \<le> startAt (sources (onmessage1 now m s) ! i))
       \<and> (\<forall>i. length (sources s) \<le> i \<and> i < length (sources (onmessage2 now m s)) \<longrightarrow>
              now \<le> startAt (sources (onmessage2 now m s) ! i))
       \<and> (\<forall>i. length (sources s) \<le> i \<and> i < length (sources (onmessage3 now m s)) \<longrightarrow>
              now \<le> startAt (sources (onmessage3 now m s) ! i))"
  using cursor_onmessage [OF assms(1,2)] assms(3) start_of_new [OF new_starts(1)]
    start_of_new [OF new_starts(2)] start_of_new [OF new_starts(3)]
  by simp

theorem cursor_monotone_between_flushes_witness:
  "\<not> interrupted (audioMsg 2) \<and> audio (audioMsg 2) = Decoded 2 \<and> 0 < audioSpeed playing3
   \<and> nextStartTime playing3 = 2
   \<and> nextStartTime (onmessage3 3 (audioMsg 2) playing3) = 5
   \<and> length (sources playing3) = 1
   \<and> length (sources (onmessage3 3 (audioMsg 2) playing3)) = 2
   \<and> startAt (sources (onmessage3 3 (audioMsg 2) playing3) ! 1) = 3"
proof -
  have h1: "\<not> interrupted (audioMsg 2)" by (simp add: example_messages)
  have h2: "\<forall>d. audio (audioMsg 2) = Decoded d \<longrightarrow> 0 \<le> d" by (simp add: example_messages)
  have p: "audioSpeed playing3 = 1" "nextStartTime playing3 = 2"
    "sources playing3 = [\<lparr>startAt = 0, duration = 2, playbackRate = 1, stoppedAt = None\<rparr>]"
    "outputCtx playing3" "outputNode playing3"
    by (simp_all add: playing3_def onmessage3_def Let_def tail_sources example_messages
        example_connected)
  have h3: "0 < audioSpeed playing3" by (simp add: p)
  show ?thesis
    using cursor_monotone_between_flushes [OF h1 h2 h3, of 3] h1 h3 p
    by (simp add: onmessage3_def Let_def tail_sources example_messages)
qed

section \<open>Rounding to binary64\<close>

lemma nearestEven_of_int [simp]: "nearestEven (of_int n) = n"
  by (simp add: nearestEven_def)

lemma nearestEven_bounds:
  "\<lfloor>y\<rfloor> \<le> nearestEven y" "nearestEven y \<le> \<lfloor>y\<rfloor> + 1"
  by (simp_all add: nearestEven_def Let_def)

lemma nearestEven_mono:
  assumes "a \<le> b"
  shows "nearestEven a \<le> nearestEven b"
proof (cases "\<lfloor>a\<rfloor> = \<lfloor>b\<rfloor>")
  case True
  with assms show ?thesis by (auto simp: nearestEven_def Let_def)
next
  case False
  with assms have "\<lfloor>a\<rfloor> < \<lfloor>b\<rfloor>" using floor_mono [OF assms] by linarith
  then have "\<lfloor>a\<rfloor> + 1 \<le> \<lfloor>b\<rfloor>" by simp
  with nearestEven_bounds(2) [of a] nearestEven_bounds(1) [of b] show ?thesis by linarith
qed

lemma nearestEven_ge: "of_int k \<le> a \<Longrightarrow> k \<le> nearestEven a"
  using nearestEven_mono [of "of_int k" a] by simp

lemma nearestEven_le: "a \<le> of_int k \<Longrightarrow> nearestEven a \<le> k"
  using nearestEven_mono [of a "of_int k"] by simp

lemma ulp_pos [simp]: "0 < ulp x" "0 \<le> ulp x" "ulp x \<noteq> 0"
  by (simp_all add: ulp_def)

lemma exponent_ge: "- 1022 \<le> exponent x"
  by (simp add: exponent_def)

lemma below_next_binade:
  assumes "x \<noteq> 0"
  shows "\<bar>x\<bar> < 2 powr (of_int (exponent x) + 1)"
proof -
  have "log 2 \<bar>x\<bar> < of_int \<lfloor>log 2 \<bar>x\<bar>\<rfloor> + 1" by linarith
  also have "\<dots> \<le> of_int (exponent x) + 1" by (simp add: exponent_def)
  finally have "log 2 \<bar>x\<bar> < of_int (exponent x) + 1" .
  with assms show ?thesis by (simp add: log_less_iff)
qed

lemma above_binade:
  assumes "x \<noteq> 0" and "- 1022 < exponent x"
  shows "2 powr (of_int (exponent x)) \<le> \<bar>x\<bar>"
proof -
  from assms(2) have "exponent x = \<lfloor>log 2 \<bar>x\<bar>\<rfloor>" by (simp add: exponent_def max_def split: if_splits)
  then have "of_int (exponent x) \<le> log 2 \<bar>x\<bar>" by simp
  with assms(1) show ?thesis by (simp add: le_log_iff)
qed

lemma exponent_mono:
  assumes "x \<noteq> 0" and "\<bar>x\<bar> \<le> \<bar>y\<bar>"
  shows "exponent x \<le> exponent y"
proof -
  from assms have "log 2 \<bar>x\<bar> \<le> log 2 \<bar>y\<bar>" by simp
  then have "\<lfloor>log 2 \<bar>x\<bar>\<rfloor> \<le> \<lfloor>log 2 \<bar>y\<bar>\<rfloor>" by (rule floor_mono)
  then show ?thesis by (simp add: exponent_def)
qed

lemma binary64_formula: "x \<noteq> 0 \<Longrightarrow> binary64 x = of_int (nearestEven (x / ulp x)) * ulp x"
  by (simp add: binary64_def)

lemma top_of_binade: "2 ^ 53 * ulp x = 2 powr (of_int (exponent x) + 1)"
proof -
  have "(2::real) ^ 53 = 2 powr 53" by simp
  then have "2 ^ 53 * ulp x = 2 powr 53 * 2 powr (of_int (exponent x) - 52)"
    by (simp only: ulp_def)
  also have "\<dots> = 2 powr (53 + (of_int (exponent x) - 52))"
    by (simp only: powr_add)
  finally show ?thesis by (simp add: algebra_simps)
qed

lemma bottom_of_binade: "2 ^ 52 * ulp x = 2 powr (of_int (exponent x))"
proof -
  have "(2::real) ^ 52 = 2 powr 52" by simp
  then have "2 ^ 52 * ulp x = 2 powr 52 * 2 powr (of_int (exponent x) - 52)"
    by (simp only: ulp_def)
  also have "\<dots> = 2 powr (52 + (of_int (exponent x) - 52))"
    by (simp only: powr_add)
  finally show ?thesis by (simp add: algebra_simps)
qed

lemma binade_numerals:
  "9007199254740992 * ulp x = 2 powr (of_int (exponent x) + 1)"
  "4503599627370496 * ulp x = 2 powr (of_int (exponent x))"
  using top_of_binade [of x] bottom_of_binade [of x] by simp_all

lemma scaled_le: "(of_int k :: real) \<le> of_int n \<Longrightarrow> of_int k * ulp x \<le> of_int n * ulp x"
  by (rule mult_right_mono) simp_all

lemma binary64_pos_upper:
  assumes "0 < x"
  shows "binary64 x \<le> 2 powr (of_int (exponent x) + 1)"
proof -
  from assms below_next_binade [of x] have "x < 9007199254740992 * ulp x"
    by (simp add: binade_numerals)
  then have "x / ulp x \<le> of_int 9007199254740992"
    by (simp add: pos_divide_le_eq)
  then have "nearestEven (x / ulp x) \<le> 9007199254740992" by (rule nearestEven_le)
  then have "(of_int (nearestEven (x / ulp x)) :: real) \<le> of_int 9007199254740992"
    by (simp only: of_int_le_iff)
  then have "of_int (nearestEven (x / ulp x)) * ulp x \<le> of_int 9007199254740992 * ulp x"
    by (rule scaled_le)
  with assms show ?thesis by (simp add: binary64_formula binade_numerals)
qed

lemma binary64_pos_lower:
  assumes "0 < x" and "- 1022 < exponent x"
  shows "2 powr (of_int (exponent x)) \<le> binary64 x"
proof -
  from assms above_binade [of x] have "4503599627370496 * ulp x \<le> x"
    by (simp add: binade_numerals)
  then have "of_int 4503599627370496 \<le> x / ulp x"
    by (simp add: pos_le_divide_eq)
  then have "4503599627370496 \<le> nearestEven (x / ulp x)" by (rule nearestEven_ge)
  then have "(of_int 4503599627370496 :: real) \<le> of_int (nearestEven (x / ulp x))"
    by (simp only: of_int_le_iff)
  then have "of_int 4503599627370496 * ulp x \<le> of_int (nearestEven (x / ulp x)) * ulp x"
    by (rule scaled_le)
  with assms show ?thesis by (simp add: binary64_formula binade_numerals)
qed

lemma binary64_neg_lower:
  assumes "x < 0"
  shows "- (2 powr (of_int (exponent x) + 1)) \<le> binary64 x"
proof -
  from assms below_next_binade [of x] have "- (9007199254740992 * ulp x) < x"
    by (simp add: binade_numerals)
  then have "of_int (- 9007199254740992) \<le> x / ulp x"
    by (simp add: pos_le_divide_eq)
  then have "- 9007199254740992 \<le> nearestEven (x / ulp x)" by (rule nearestEven_ge)
  then have "(of_int (- 9007199254740992) :: real) \<le> of_int (nearestEven (x / ulp x))"
    by (simp only: of_int_le_iff)
  then have "of_int (- 9007199254740992) * ulp x \<le> of_int (nearestEven (x / ulp x)) * ulp x"
    by (rule scaled_le)
  with assms show ?thesis by (simp add: binary64_formula binade_numerals)
qed

lemma binary64_neg_upper:
  assumes "x < 0" and "- 1022 < exponent x"
  shows "binary64 x \<le> - (2 powr (of_int (exponent x)))"
proof -
  from assms above_binade [of x] have "x \<le> - (4503599627370496 * ulp x)"
    by (simp add: binade_numerals)
  then have "x / ulp x \<le> of_int (- 4503599627370496)"
    by (simp add: pos_divide_le_eq)
  then have "nearestEven (x / ulp x) \<le> - 4503599627370496" by (rule nearestEven_le)
  then have "(of_int (nearestEven (x / ulp x)) :: real) \<le> of_int (- 4503599627370496)"
    by (simp only: of_int_le_iff)
  then have "of_int (nearestEven (x / ulp x)) * ulp x \<le> of_int (- 4503599627370496) * ulp x"
    by (rule scaled_le)
  with assms show ?thesis by (simp add: binary64_formula binade_numerals)
qed

lemma binary64_sign:
  "0 \<le> x \<Longrightarrow> 0 \<le> binary64 x" "x \<le> 0 \<Longrightarrow> binary64 x \<le> 0"
proof -
  assume "0 \<le> x"
  then have "of_int 0 \<le> x / ulp x" by simp
  then have "0 \<le> nearestEven (x / ulp x)" by (rule nearestEven_ge)
  then show "0 \<le> binary64 x" by (simp add: binary64_def)
next
  assume "x \<le> 0"
  then have "x / ulp x \<le> of_int 0" by (simp add: divide_nonpos_pos)
  then have "nearestEven (x / ulp x) \<le> 0" by (rule nearestEven_le)
  then show "binary64 x \<le> 0" by (simp add: binary64_def mult_le_0_iff)
qed

lemma same_binade_mono:
  assumes "x \<le> y" and "exponent x = exponent y" and "x \<noteq> 0" and "y \<noteq> 0"
  shows "binary64 x \<le> binary64 y"
proof -
  from assms(2) have u: "ulp x = ulp y" by (simp add: ulp_def)
  from assms(1) have "x / ulp y \<le> y / ulp y" by (rule divide_right_mono) simp
  then have "nearestEven (x / ulp y) \<le> nearestEven (y / ulp y)" by (rule nearestEven_mono)
  then have "of_int (nearestEven (x / ulp y)) * ulp y \<le> of_int (nearestEven (y / ulp y)) * ulp y"
    by (intro scaled_le) simp
  with assms(3,4) show ?thesis by (simp add: binary64_formula u)
qed

lemma powr_step: "(a::int) < b \<Longrightarrow> 2 powr (of_int a + 1) \<le> (2::real) powr (of_int b)"
proof -
  assume "a < b"
  then have "(of_int a :: real) + 1 \<le> of_int b" by linarith
  then show ?thesis by simp
qed

lemma binary64_mono:
  assumes "x \<le> y"
  shows "binary64 x \<le> binary64 y"
proof -
  consider "x \<le> 0" "0 \<le> y" | "0 < x" | "y < 0" using assms by linarith
  then show ?thesis
  proof cases
    case 1
    from binary64_sign(2) [OF 1(1)] binary64_sign(1) [OF 1(2)] show ?thesis by linarith
  next
    case 2
    with assms have y: "0 < y" by simp
    from 2 y assms have "exponent x \<le> exponent y" by (intro exponent_mono) simp_all
    then consider "exponent x = exponent y" | "exponent x < exponent y" by linarith
    then show ?thesis
    proof cases
      case 1
      with assms 2 y show ?thesis by (intro same_binade_mono) simp_all
    next
      case 2
      with exponent_ge [of x] have "- 1022 < exponent y" by linarith
      from binary64_pos_lower [OF y this] binary64_pos_upper [OF \<open>0 < x\<close>] powr_step [OF 2]
      show ?thesis by linarith
    qed
  next
    case 3
    with assms have x: "x < 0" by simp
    from 3 x assms have "exponent y \<le> exponent x" by (intro exponent_mono) simp_all
    then consider "exponent x = exponent y" | "exponent y < exponent x" by linarith
    then show ?thesis
    proof cases
      case 1
      with assms 3 x show ?thesis by (intro same_binade_mono) simp_all
    next
      case 2
      with exponent_ge [of y] have "- 1022 < exponent x" by linarith
      from binary64_neg_upper [OF x this] binary64_neg_lower [OF \<open>y < 0\<close>] powr_step [OF 2]
      show ?thesis by linarith
    qed
  qed
qed

lemma nearestEven_abs_le:
  assumes "x \<noteq> 0"
  shows "\<bar>nearestEven (x / ulp x)\<bar> \<le> 9007199254740992"
proof -
  from below_next_binade [OF assms] have b: "\<bar>x\<bar> < 9007199254740992 * ulp x"
    by (simp add: binade_numerals)
  then have "x / ulp x \<le> of_int 9007199254740992"
    by (simp add: pos_divide_le_eq)
  then have 1: "nearestEven (x / ulp x) \<le> 9007199254740992" by (rule nearestEven_le)
  from b have "of_int (- 9007199254740992) \<le> x / ulp x"
    by (simp add: pos_le_divide_eq)
  then have 2: "- 9007199254740992 \<le> nearestEven (x / ulp x)" by (rule nearestEven_ge)
  from 1 2 show ?thesis by linarith
qed

lemma ulp_ratio:
  assumes "exponent y \<le> exponent x"
  shows "ulp x = 2 ^ nat (exponent x - exponent y) * ulp y"
proof -
  have "(2::real) ^ nat (exponent x - exponent y) = 2 powr (of_nat (nat (exponent x - exponent y)))"
    by (simp add: powr_realpow)
  also have "of_nat (nat (exponent x - exponent y)) = (of_int (exponent x) - of_int (exponent y) :: real)"
    using assms by simp
  finally have "2 ^ nat (exponent x - exponent y) * ulp y
      = 2 powr (of_int (exponent x) - of_int (exponent y)) * 2 powr (of_int (exponent y) - 52)"
    by (simp only: ulp_def)
  also have "\<dots> = 2 powr ((of_int (exponent x) - of_int (exponent y)) + (of_int (exponent y) - 52))"
    by (simp only: powr_add)
  finally show ?thesis by (simp add: ulp_def)
qed

lemma ulp_double:
  assumes "exponent y = exponent x + 1"
  shows "ulp y = 2 * ulp x"
proof -
  have "ulp y = 2 powr (1 + (of_int (exponent x) - 52))"
    by (simp add: ulp_def assms algebra_simps)
  also have "\<dots> = 2 powr 1 * 2 powr (of_int (exponent x) - 52)"
    by (simp only: powr_add)
  finally show ?thesis by (simp add: ulp_def)
qed

lemma binary64_of_multiple:
  assumes "y = of_int k * ulp y"
  shows "binary64 y = y"
proof (cases "y = 0")
  case True
  then show ?thesis by (simp add: binary64_def)
next
  case False
  from assms have "y / ulp y = of_int k" by (simp add: field_simps)
  with False assms show ?thesis by (simp add: binary64_formula)
qed

lemma exponent_le:
  assumes "y \<noteq> 0" and "\<bar>y\<bar> < 2 powr (of_int e + 1)" and "- 1022 \<le> e"
  shows "exponent y \<le> e"
proof -
  from assms(1,2) have "log 2 \<bar>y\<bar> < of_int e + 1" by (simp add: log_less_iff)
  then have "\<lfloor>log 2 \<bar>y\<bar>\<rfloor> < e + 1" by linarith
  with assms(3) show ?thesis by (simp add: exponent_def)
qed

lemma exponent_power:
  assumes "\<bar>y\<bar> = 2 powr (of_int e)" and "- 1022 \<le> e"
  shows "exponent y = e"
proof -
  from assms(1) have "y \<noteq> 0" by auto
  have "log 2 \<bar>y\<bar> = of_int e" by (simp add: assms(1))
  with assms(2) show ?thesis by (simp add: exponent_def)
qed

lemma binary64_idem: "binary64 (binary64 x) = binary64 x"
proof (cases "x = 0")
  case True
  then show ?thesis by (simp add: binary64_def)
next
  case False
  define n where "n = nearestEven (x / ulp x)"
  define y where "y = binary64 x"
  from False have y: "y = of_int n * ulp x" by (simp add: y_def n_def binary64_formula)
  from nearestEven_abs_le [OF False] have n: "\<bar>n\<bar> \<le> 9007199254740992" by (simp add: n_def)
  show ?thesis
  proof (cases "\<bar>n\<bar> = 9007199254740992")
    case True
    then have "\<bar>y\<bar> = 9007199254740992 * ulp x"
      by (simp add: y abs_mult)
    then have a: "\<bar>y\<bar> = 2 powr (of_int (exponent x + 1))"
      by (simp add: binade_numerals)
    have "exponent y = exponent x + 1"
      by (rule exponent_power [OF a]) (use exponent_ge [of x] in linarith)
    then have u: "ulp y = 2 * ulp x" by (rule ulp_double)
    from True have "n = 2 * 4503599627370496 \<or> n = 2 * (- 4503599627370496)" by linarith
    then obtain k where k: "n = 2 * k" by blast
    have "y = of_int n * ulp x" by (fact y)
    also have "\<dots> = of_int k * (2 * ulp x)" by (simp add: k)
    also have "\<dots> = of_int k * ulp y" by (simp only: u)
    finally have "binary64 y = y" by (rule binary64_of_multiple)
    then show ?thesis by (simp add: y_def)
  next
    case False
    with n have n': "\<bar>n\<bar> < 9007199254740992" by linarith
    show ?thesis
    proof (cases "n = 0")
      case True
      with y have "y = 0" by simp
      then have "binary64 y = y" by (simp add: binary64_def)
      then show ?thesis by (simp add: y_def)
    next
      case nz: False
      then have y0: "y \<noteq> 0" by (simp add: y)
      from n' have "(of_int \<bar>n\<bar> :: real) < of_int 9007199254740992"
        by (simp only: of_int_less_iff)
      then have "of_int \<bar>n\<bar> * ulp x < of_int 9007199254740992 * ulp x"
        by (rule mult_strict_right_mono) simp
      then have "\<bar>y\<bar> < 2 powr (of_int (exponent x) + 1)"
        by (simp add: y abs_mult binade_numerals)
      then have le: "exponent y \<le> exponent x"
        by (rule exponent_le [OF y0]) (rule exponent_ge)
      have "y = of_int n * ulp x" by (fact y)
      also have "\<dots> = of_int n * (2 ^ nat (exponent x - exponent y) * ulp y)"
        by (simp only: ulp_ratio [OF le])
      also have "\<dots> = of_int (n * 2 ^ nat (exponent x - exponent y)) * ulp y"
        by simp
      finally have "binary64 y = y" by (rule binary64_of_multiple)
      then show ?thesis by (simp add: y_def)
    qed
  qed
qed

lemma exponent_eq:
  assumes "2 powr (of_int e) \<le> \<bar>x\<bar>" and "\<bar>x\<bar> < 2 powr (of_int e + 1)" and "- 1022 \<le> e"
  shows "exponent x = e"
proof -
  have "0 < (2::real) powr (of_int e)" by simp
  with assms(1) have x: "x \<noteq> 0" by auto
  from x assms(1) have "of_int e \<le> log 2 \<bar>x\<bar>" by (simp add: le_log_iff)
  moreover from x assms(2) have "log 2 \<bar>x\<bar> < of_int e + 1" by (simp add: log_less_iff)
  ultimately have "\<lfloor>log 2 \<bar>x\<bar>\<rfloor> = e" by linarith
  with assms(3) show ?thesis by (simp add: exponent_def)
qed

lemma binary64_in_binade:
  assumes "2 powr (of_int e) \<le> \<bar>x\<bar>" and "\<bar>x\<bar> < 2 powr (of_int e + 1)" and "- 1022 \<le> e"
  shows "binary64 x
           = of_int (nearestEven (x / 2 powr (of_int e - 52))) * 2 powr (of_int e - 52)"
proof -
  have "0 < (2::real) powr (of_int e)" by simp
  with assms(1) have x: "x \<noteq> 0" by auto
  from exponent_eq [OF assms] have "ulp x = 2 powr (of_int e - 52)" by (simp add: ulp_def)
  with x show ?thesis by (simp add: binary64_formula)
qed

lemma binary64_scaled:
  assumes "\<bar>k\<bar> < 9007199254740992" and "- 1074 \<le> t"
  shows "binary64 (of_int k * 2 powr (of_int t)) = of_int k * 2 powr (of_int t)"
proof (cases "k = 0")
  case True
  then show ?thesis by (simp add: binary64_def)
next
  case False
  define y :: real where "y = of_int k * 2 powr (of_int t)"
  from False have y0: "y \<noteq> 0" by (simp add: y_def)
  from assms(1) have "(of_int \<bar>k\<bar> :: real) < of_int 9007199254740992"
    by (simp only: of_int_less_iff)
  then have "of_int \<bar>k\<bar> * (2::real) powr (of_int t)
      < of_int 9007199254740992 * (2::real) powr (of_int t)"
    by (rule mult_strict_right_mono) simp
  also have "of_int 9007199254740992 * (2::real) powr (of_int t) = 2 powr 53 * 2 powr (of_int t)"
    by simp
  also have "\<dots> = 2 powr (of_int (t + 52) + 1)"
    by (simp only: powr_add [symmetric]) (simp add: algebra_simps)
  finally have "\<bar>y\<bar> < 2 powr (of_int (t + 52) + 1)"
    by (simp add: y_def abs_mult)
  then have le: "exponent y \<le> t + 52"
    by (rule exponent_le [OF y0]) (use assms(2) in linarith)
  have "(2::real) ^ nat (t + 52 - exponent y) = 2 powr (of_nat (nat (t + 52 - exponent y)))"
    by (simp add: powr_realpow)
  also have "of_nat (nat (t + 52 - exponent y)) = (of_int t - (of_int (exponent y) - 52) :: real)"
    using le by simp
  finally have "2 ^ nat (t + 52 - exponent y) * ulp y
      = 2 powr (of_int t - (of_int (exponent y) - 52)) * 2 powr (of_int (exponent y) - 52)"
    by (simp only: ulp_def)
  also have "\<dots> = 2 powr ((of_int t - (of_int (exponent y) - 52)) + (of_int (exponent y) - 52))"
    by (simp only: powr_add)
  finally have r: "2 powr (of_int t) = 2 ^ nat (t + 52 - exponent y) * ulp y" by simp
  have "y = of_int k * 2 powr (of_int t)" by (fact y_def)
  also have "\<dots> = of_int k * (2 ^ nat (t + 52 - exponent y) * ulp y)" by (simp only: r)
  also have "\<dots> = of_int (k * 2 ^ nat (t + 52 - exponent y)) * ulp y" by simp
  finally have "binary64 y = y" by (rule binary64_of_multiple)
  then show ?thesis by (simp add: y_def)
qed

lemma binary64_of_int:
  "\<bar>k\<bar> < 9007199254740992 \<Longrightarrow> binary64 (of_int k) = of_int k"
  using binary64_scaled [of k 0] by simp

lemma binary64_zero [simp]: "binary64 0 = 0"
  by (simp add: binary64_def)

lemma nearestEven_error: "\<bar>of_int (nearestEven y) - y\<bar> \<le> 1/2"
proof -
  define r where "r = y - of_int \<lfloor>y\<rfloor>"
  have r: "0 \<le> r" "r < 1" unfolding r_def by linarith+
  consider "r < 1/2" | "1/2 < r" | "r = 1/2" by linarith
  then show ?thesis
  proof cases
    case 1
    then have "nearestEven y = \<lfloor>y\<rfloor>" by (simp add: nearestEven_def Let_def r_def)
    with r 1 show ?thesis by (simp add: r_def)
  next
    case 2
    then have "nearestEven y = \<lfloor>y\<rfloor> + 1" by (simp add: nearestEven_def Let_def r_def)
    with r 2 show ?thesis by (simp add: r_def)
  next
    case 3
    then have "nearestEven y = \<lfloor>y\<rfloor> \<or> nearestEven y = \<lfloor>y\<rfloor> + 1"
      by (simp add: nearestEven_def Let_def r_def)
    with 3 show ?thesis by (auto simp: r_def)
  qed
qed

lemma binary64_error: "\<bar>binary64 x - x\<bar> \<le> ulp x / 2"
proof (cases "x = 0")
  case True
  then show ?thesis by simp
next
  case False
  have "binary64 x - x = (of_int (nearestEven (x / ulp x)) - x / ulp x) * ulp x"
    using False by (simp add: binary64_formula algebra_simps)
  then have "\<bar>binary64 x - x\<bar> = \<bar>of_int (nearestEven (x / ulp x)) - x / ulp x\<bar> * ulp x"
    by (simp add: abs_mult)
  also have "\<dots> \<le> 1/2 * ulp x"
    by (rule mult_right_mono [OF nearestEven_error]) simp
  finally show ?thesis by simp
qed

lemma binary64_max:
  "binary64 a = a \<Longrightarrow> binary64 b = b \<Longrightarrow> binary64 (max a b) = max a b"
  by (simp add: max_def)

lemma advance_ge:
  assumes "binary64 c = c" and "0 \<le> q"
  shows "c \<le> binary64 (c + q)"
  using binary64_mono [of c "c + q"] assms by simp

section \<open>The schedule of enqueued segments\<close>

lemma steady_run:
  assumes "\<forall>e\<in>set es. steady e" and "P s"
    and "\<And>e t. steady e \<Longrightarrow> P t \<Longrightarrow> P (step e t)"
  shows "P (run step es s)"
  using assms(1,2)
proof (induction es arbitrary: s)
  case Nil
  then show ?case by simp
next
  case (Cons e es)
  from Cons.prems have "steady e" and rest: "\<forall>e\<in>set es. steady e" by simp_all
  from assms(3) [OF \<open>steady e\<close> Cons.prems(2)] have "P (step e s)" .
  from Cons.IH [OF rest this] show ?case by simp
qed

lemma tail_quiet:
  "\<not> interrupted m \<Longrightarrow> tail3 now m s = s"
  "\<not> interrupted m \<Longrightarrow> nextStartTime (tail1 now m s) = nextStartTime s"
  "\<not> interrupted m \<Longrightarrow> sources (tail1 now m s) = sources s"
  by (simp_all add: tail3_def tail1_def Let_def)

lemma enqueue1_double:
  assumes "outputCtx s" and "outputNode s" and "\<not> ignoringNextTurn s"
    and "audio m = Decoded d" and "\<not> interrupted m"
  shows "sources (onmessage1_double now m s)
           = sources s @ [\<lparr>startAt = max (nextStartTime s) now, duration = d,
                           playbackRate = 1, stoppedAt = None\<rparr>]"
    and "nextStartTime (onmessage1_double now m s) = binary64 (max (nextStartTime s) now + d)"
    and "outputCtx (onmessage1_double now m s)"
    and "outputNode (onmessage1_double now m s)"
    and "\<not> ignoringNextTurn (onmessage1_double now m s)"
  using assms by (simp_all add: onmessage1_double_def Let_def tail_quiet)

lemma quiet1_double:
  assumes "audio m = NoAudio" and "\<not> interrupted m"
  shows "sources (onmessage1_double now m s) = sources s"
    and "nextStartTime (onmessage1_double now m s) = nextStartTime s"
    and "outputCtx (onmessage1_double now m s) = outputCtx s"
    and "outputNode (onmessage1_double now m s) = outputNode s"
    and "ignoringNextTurn (onmessage1_double now m s) = (ignoringNextTurn s \<and> \<not> turnComplete m)"
  using assms by (simp_all add: onmessage1_double_def Let_def tail_quiet)

lemma enqueue3_double:
  assumes "outputCtx s" and "outputNode s" and "audio m = Decoded d" and "\<not> interrupted m"
  shows "sources (onmessage3_double now m s)
           = sources s @ [\<lparr>startAt = max (nextStartTime s) now, duration = d,
                           playbackRate = audioSpeed s, stoppedAt = None\<rparr>]"
    and "nextStartTime (onmessage3_double now m s)
           = binary64 (max (nextStartTime s) now + binary64 (d / audioSpeed s))"
    and "outputCtx (onmessage3_double now m s)"
    and "outputNode (onmessage3_double now m s)"
    and "ignoringNextTurn (onmessage3_double now m s) = ignoringNextTurn s"
    and "audioSpeed (onmessage3_double now m s) = audioSpeed s"
  using assms by (simp_all add: onmessage3_double_def Let_def tail_quiet prepare3_def)

lemma quiet3_double:
  assumes "audio m = NoAudio" and "\<not> interrupted m"
  shows "sources (onmessage3_double now m s) = sources s"
    and "nextStartTime (onmessage3_double now m s) = nextStartTime s"
    and "outputCtx (onmessage3_double now m s) = outputCtx s"
    and "outputNode (onmessage3_double now m s) = outputNode s"
    and "ignoringNextTurn (onmessage3_double now m s) = ignoringNextTurn s"
    and "audioSpeed (onmessage3_double now m s) = audioSpeed s"
  using assms by (simp_all add: onmessage3_double_def Let_def tail_quiet)

lemma onSchedule_same:
  assumes "onSchedule s"
    and "outputCtx t = outputCtx s" and "outputNode t = outputNode s"
    and "ignoringNextTurn t = ignoringNextTurn s"
    and "nextStartTime t = nextStartTime s" and "sources t = sources s"
  shows "onSchedule t"
  using assms by (simp add: onSchedule_def)

lemma onSchedule_connected: "onSchedule (connected v)"
  by (simp add: onSchedule_def apart_def example_connected)

lemma scheduledEnd_new:
  "scheduledEnd \<lparr>startAt = c, duration = d, playbackRate = r, stoppedAt = x\<rparr>
     = binary64 (c + binary64 (d / r))"
  by (simp add: scheduledEnd_def)

lemma onSchedule_enqueue:
  assumes s: "onSchedule s" and now: "binary64 now = now" and d: "0 \<le> d" and r: "0 < r"
    and src: "sources t = sources s @ [\<lparr>startAt = max (nextStartTime s) now, duration = d,
                                         playbackRate = r, stoppedAt = None\<rparr>]"
    and cur: "nextStartTime t = binary64 (max (nextStartTime s) now + binary64 (d / r))"
    and out: "outputCtx t" "outputNode t" "\<not> ignoringNextTurn t"
  shows "onSchedule t"
proof -
  let ?c = "nextStartTime s"
  let ?st = "max ?c now"
  let ?q = "binary64 (d / r)"
  let ?new = "\<lparr>startAt = ?st, duration = d, playbackRate = r, stoppedAt = None\<rparr>"
  from s have c: "binary64 ?c = ?c" and c0: "0 \<le> ?c" and ap: "apart (sources s)"
    and below: "\<forall>a\<in>set (sources s). scheduledEnd a \<le> ?c"
    by (simp_all add: onSchedule_def)
  from c now have st: "binary64 ?st = ?st" by (rule binary64_max)
  from d r have "0 \<le> d / r" by simp
  then have q: "0 \<le> ?q" by (rule binary64_sign)
  from st q have up: "?st \<le> binary64 (?st + ?q)" by (rule advance_ge)
  have e: "scheduledEnd ?new = binary64 (?st + ?q)" by (rule scheduledEnd_new)
  have 1: "binary64 (nextStartTime t) = nextStartTime t"
    by (simp add: cur binary64_idem)
  from c0 up have "0 \<le> binary64 (?st + ?q)" by linarith
  then have nonneg: "0 \<le> nextStartTime t" by (simp only: cur)
  from below have before: "\<forall>a\<in>set (sources s). scheduledEnd a \<le> ?st" by auto
  with ap have 2: "apart (sources t)"
    by (simp add: src apart_def sorted_wrt_append)
  from before up have 3: "\<forall>a\<in>set (sources t). scheduledEnd a \<le> nextStartTime t"
    by (auto simp: src cur e)
  have 4: "nextStartTime t = scheduledEnd (last (sources t))"
    by (simp add: src cur e)
  show ?thesis unfolding onSchedule_def
    by (intro conjI impI) (rule out nonneg 1 2 3 4)+
qed

lemma onSchedule_step1:
  assumes "steady e" and "onSchedule s"
  shows "onSchedule (step1_double e s)"
proof (cases e)
  case (OnMessage now m)
  from assms(2) have o: "outputCtx s" "outputNode s" "\<not> ignoringNextTurn s"
    by (simp_all add: onSchedule_def)
  from assms(1) OnMessage have ni: "\<not> interrupted m" and now: "binary64 now = now" by simp_all
  show ?thesis
  proof (cases "audio m")
    case NoAudio
    note q = quiet1_double [OF NoAudio ni, of now s]
    show ?thesis unfolding OnMessage step1_double.simps
      by (rule onSchedule_same [OF assms(2)]) (simp_all add: q o)
  next
    case Undecodable
    with assms(1) OnMessage show ?thesis by simp
  next
    case (Decoded d)
    with assms(1) OnMessage have d: "0 \<le> d" "binary64 d = d" by simp_all
    note q = enqueue1_double [OF o Decoded ni, of now]
    show ?thesis unfolding OnMessage step1_double.simps
      by (rule onSchedule_enqueue [OF assms(2) now d(1), of 1])
         (simp_all add: q d(2))
  qed
next
  case (Ended i)
  show ?thesis unfolding Ended step1_double.simps
    by (rule onSchedule_same [OF assms(2)]) (simp_all add: ended1_def Let_def)
next
  case (SendTextMessage msg)
  show ?thesis unfolding SendTextMessage step1_double.simps
    by (rule onSchedule_same [OF assms(2)]) (simp_all add: sendTextMessage_def)
next
  case (AudioProcess f)
  show ?thesis unfolding AudioProcess step1_double.simps
    by (rule onSchedule_same [OF assms(2)]) (simp_all add: onaudioprocess1_def Let_def)
next
  case (SetSpeed v)
  with assms(2) show ?thesis by simp
qed (use assms(1) in simp_all)

lemma onSchedule_step3:
  assumes "steady e" and "onSchedule s \<and> 0 < audioSpeed s"
  shows "onSchedule (step3_double e s) \<and> 0 < audioSpeed (step3_double e s)"
proof (cases e)
  case (OnMessage now m)
  from assms(2) have s: "onSchedule s" and v: "0 < audioSpeed s" by simp_all
  from s have o: "outputCtx s" "outputNode s" and i: "\<not> ignoringNextTurn s"
    by (simp_all add: onSchedule_def)
  from assms(1) OnMessage have ni: "\<not> interrupted m" and now: "binary64 now = now" by simp_all
  show ?thesis
  proof (cases "audio m")
    case NoAudio
    note q = quiet3_double [OF NoAudio ni, of now s]
    have "onSchedule (onmessage3_double now m s)"
      by (rule onSchedule_same [OF s]) (simp_all add: q)
    with v show ?thesis by (simp add: OnMessage q)
  next
    case Undecodable
    with assms(1) OnMessage show ?thesis by simp
  next
    case (Decoded d)
    with assms(1) OnMessage have d: "0 \<le> d" by simp
    note q = enqueue3_double [OF o Decoded ni, of now]
    have "onSchedule (onmessage3_double now m s)"
      by (rule onSchedule_enqueue [OF s now d v]) (simp_all add: q i)
    with v show ?thesis by (simp add: OnMessage q)
  qed
next
  case (Ended i)
  from assms(2) have s: "onSchedule s" and v: "0 < audioSpeed s" by simp_all
  have "onSchedule (ended3 i s)"
    by (rule onSchedule_same [OF s]) (simp_all add: ended3_def)
  with v show ?thesis by (simp add: Ended ended3_def)
next
  case (SendTextMessage msg)
  with assms(2) show ?thesis by simp
next
  case (AudioProcess f)
  from assms(2) have s: "onSchedule s" and v: "0 < audioSpeed s" by simp_all
  have "onSchedule (onaudioprocess3 f s)"
    by (rule onSchedule_same [OF s]) (simp_all add: onaudioprocess3_def)
  with v show ?thesis by (simp add: AudioProcess onaudioprocess3_def)
next
  case (SetSpeed v)
  from assms(2) have s: "onSchedule s" by simp
  have "onSchedule (setSpeed v s)"
    by (rule onSchedule_same [OF s]) (simp_all add: setSpeed_def)
  with assms(1) show ?thesis by (simp add: SetSpeed setSpeed_def)
qed (use assms(1) in simp_all)

lemma onSchedule_run1:
  "\<forall>e\<in>set es. steady e \<Longrightarrow> onSchedule (run step1_double es (connected v))"
  by (rule steady_run [where P = onSchedule])
     (simp_all add: onSchedule_connected onSchedule_step1)

lemma onSchedule_run3:
  assumes "\<forall>e\<in>set es. steady e" and "0 < v"
  shows "onSchedule (run step3_double es (connected v))
       \<and> 0 < audioSpeed (run step3_double es (connected v))"
  by (rule steady_run [where P = "\<lambda>s. onSchedule s \<and> 0 < audioSpeed s", OF assms(1)])
     (simp_all add: onSchedule_connected example_connected assms(2) onSchedule_step3)

text \<open>
  Enqueueing never lowers the cursor, and the rounded quotient is not above the new
  cursor; the other events of such a run leave the cursor as it is. So while the cursor
  is \<open>finite64\<close>, every sum and quotient computed so far has been.
\<close>

lemma within_cursor:
  assumes "onSchedule s" and "binary64 now = now" and "0 \<le> q"
  shows "nextStartTime s \<le> binary64 (max (nextStartTime s) now + q)"
    and "nextStartTime s \<le> binary64 (max (nextStartTime s) now + binary64 q)"
    and "binary64 q \<le> binary64 (max (nextStartTime s) now + binary64 q)"
proof -
  let ?st = "max (nextStartTime s) now"
  from assms(1) have c: "binary64 (nextStartTime s) = nextStartTime s"
    and c0: "0 \<le> nextStartTime s"
    by (simp_all add: onSchedule_def)
  from c assms(2) have st: "binary64 ?st = ?st" by (rule binary64_max)
  from assms(3) have q: "0 \<le> binary64 q" by (rule binary64_sign)
  from advance_ge [OF st assms(3)] show "nextStartTime s \<le> binary64 (?st + q)" by simp
  from advance_ge [OF st q] show "nextStartTime s \<le> binary64 (?st + binary64 q)" by simp
  from c0 have "binary64 q \<le> ?st + binary64 q" by simp
  then have "binary64 (binary64 q) \<le> binary64 (?st + binary64 q)" by (rule binary64_mono)
  then show "binary64 q \<le> binary64 (?st + binary64 q)" by (simp add: binary64_idem)
qed

lemma gap_before:
  "max c now - c = max 0 (now - c)" for c :: real
  by (simp add: max_def)

lemma cursor_error:
  "\<bar>binary64 (c + binary64 q) - (c + q)\<bar> \<le> ulp q / 2 + ulp (c + binary64 q) / 2"
proof -
  have "\<bar>binary64 (c + binary64 q) - (c + q)\<bar>
          \<le> \<bar>binary64 (c + binary64 q) - (c + binary64 q)\<bar> + \<bar>binary64 q - q\<bar>"
    by linarith
  with binary64_error [of "c + binary64 q"] binary64_error [of q] show ?thesis by linarith
qed

text \<open>
  Where neither the quotient nor the sum needs rounding, the handlers with rounding are
  the handlers in exact arithmetic.
\<close>

lemma double_is_exact:
  "(\<And>d. audio m = Decoded d \<Longrightarrow>
        binary64 (max (nextStartTime s) now + d) = max (nextStartTime s) now + d) \<Longrightarrow>
     onmessage1_double now m s = onmessage1 now m s"
  "(\<And>d. audio m = Decoded d \<Longrightarrow>
        binary64 (d / audioSpeed s) = d / audioSpeed s
        \<and> binary64 (max (nextStartTime s) now + d / audioSpeed s)
            = max (nextStartTime s) now + d / audioSpeed s) \<Longrightarrow>
     onmessage3_double now m s = onmessage3 now m s"
  by (cases "audio m"; simp add: onmessage1_double_def onmessage1_def onmessage3_double_def
        onmessage3_def Let_def)+

lemma binary64_examples:
  "binary64 1 = 1" "binary64 2 = 2" "binary64 3 = 3" "binary64 5 = 5" "binary64 6 = 6"
  "binary64 (4/3) = 6004799503160661 / 4503599627370496"
  "binary64 (6004799503160661 / 4503599627370496) = 6004799503160661 / 4503599627370496"
  "binary64 (19515598385272149 / 4503599627370496) = 4878899596318037 / 1125899906842624"
proof -
  show "binary64 1 = 1" "binary64 2 = 2" "binary64 3 = 3" "binary64 5 = 5" "binary64 6 = 6"
    using binary64_of_int [of 1] binary64_of_int [of 2] binary64_of_int [of 3]
      binary64_of_int [of 5] binary64_of_int [of 6]
    by simp_all
  show a: "binary64 (4/3) = 6004799503160661 / 4503599627370496"
    using binary64_in_binade [of 0 "4/3"] by (simp add: powr_minus nearestEven_def)
  show "binary64 (6004799503160661 / 4503599627370496) = 6004799503160661 / 4503599627370496"
    using binary64_idem [of "4/3"] by (simp only: a)
  show "binary64 (19515598385272149 / 4503599627370496) = 4878899596318037 / 1125899906842624"
    using binary64_in_binade [of 2 "19515598385272149 / 4503599627370496"]
    by (simp add: powr_minus nearestEven_def)
qed

lemma underrun_run:
  "map scheduled (sources (run step1_double underrun (connected 1))) = [(0, 1, 1), (5, 1, 1)]"
  "map scheduledEnd (sources (run step1_double underrun (connected 1))) = [1, 6]"
  by (simp_all add: underrun_def onmessage1_double_def Let_def tail_quiet example_messages
      example_connected scheduled_def scheduledEnd_def binary64_examples)

lemma hurried_run:
  "map scheduled (sources (run step3_double hurried (connected (3/2))))
     = [(0, 2, 3/2), (6004799503160661 / 4503599627370496, 3, 3/2)]"
  "map endAt (sources (run step3_double hurried (connected (3/2)))) 
     = [4/3, 6004799503160661 / 4503599627370496 + 2]"
  by (simp_all add: hurried_def onmessage3_double_def Let_def tail_quiet example_messages
      example_connected scheduled_def endAt_def binary64_examples)

text \<open>
  C1, as stated, fails. A chunk that arrives after the scheduled end of its predecessor
  starts at the current instant, and a gap of silence remains between the two (the run
  \<open>underrun\<close>: a gap of four seconds). And the cursor is a sum of rounded terms: at
  the speed 1.5 a buffer of two seconds advances it to the binary64 value below 4/3, so
  the next source starts before the first one has played its buffer (the run
  \<open>hurried\<close>).
\<close>

theorem gapless_counterexample:
  "map scheduled (sources (run step1_double underrun (connected 1))) = [(0, 1, 1), (5, 1, 1)]
   \<and> gaps (sources (run step1_double underrun (connected 1))) = [4]
   \<and> map startAt (sources (run step3_double hurried (connected (3/2))))
       = [0, 6004799503160661 / 4503599627370496]
   \<and> map endAt (sources (run step3_double hurried (connected (3/2))))
       = [4/3, 6004799503160661 / 4503599627370496 + 2]
   \<and> startAt (sources (run step3_double hurried (connected (3/2))) ! 1)
       < endAt (sources (run step3_double hurried (connected (3/2))) ! 0)"
proof -
  have g: "gaps (sources (run step1_double underrun (connected 1))) = [4]"
    by (simp add: underrun_def onmessage1_double_def Let_def tail_quiet example_messages
        example_connected scheduledEnd_def binary64_examples)
  have s: "sources (run step3_double hurried (connected (3/2)))
      = [\<lparr>startAt = 0, duration = 2, playbackRate = 3/2, stoppedAt = None\<rparr>,
         \<lparr>startAt = 6004799503160661 / 4503599627370496, duration = 3, playbackRate = 3/2,
          stoppedAt = None\<rparr>]"
    by (simp add: hurried_def onmessage3_double_def Let_def tail_quiet example_messages
        example_connected binary64_examples)
  show ?thesis by (simp add: underrun_run(1) g s endAt_def)
qed

text \<open>
  C1, amended. Take a run of the control-message variant or of the speed variant from
  \<open>connected\<close> in which nothing is flushed and no control message is sent (the events
  are \<open>steady\<close>; the speed may change between chunks, to positive values), and let a
  further chunk of duration \<open>d\<close> arrive at the instant \<open>now\<close>, the cursor
  staying in the range of the finite binary64 values. Then

  \<^item> the chunk becomes one new source, which starts at the maximum of the cursor and
    \<open>now\<close>, at rate 1 (control-message variant) or at the speed read at that moment
    (speed variant);
  \<^item> the cursor becomes the sum of that start and the duration (divided by the rate in
    the speed variant), quotient and sum rounded to binary64: the scheduled end of the
    source, which differs from its end in exact arithmetic by at most half an \<open>ulp\<close> of
    the quotient plus half an \<open>ulp\<close> of the sum;
  \<^item> no source, the new one included, starts before the scheduled end of a source
    enqueued earlier;
  \<^item> the gap between the scheduled end of the previous source and the start of the new
    one is \<open>max 0 (now - scheduledEnd previous)\<close>: none when the chunk arrives before
    that end, the delay of the chunk otherwise.
\<close>

theorem schedule_without_overlap:
  fixes es :: "event list" and m :: message and now d v :: real
  defines "S1 \<equiv> run step1_double es (connected v)"
    and "S3 \<equiv> run step3_double es (connected v)"
  assumes "0 < v" and "\<forall>e\<in>set es. steady e" and "steady (OnMessage now m)"
    and "audio m = Decoded d"
    and "finite64 (nextStartTime (onmessage1_double now m S1))"
    and "finite64 (nextStartTime (onmessage3_double now m S3))"
  shows "sources (onmessage1_double now m S1)
           = sources S1 @ [\<lparr>startAt = max (nextStartTime S1) now, duration = d,
                            playbackRate = 1, stoppedAt = None\<rparr>]
       \<and> nextStartTime (onmessage1_double now m S1) = binary64 (max (nextStartTime S1) now + d)
       \<and> nextStartTime (onmessage1_double now m S1)
           = scheduledEnd (last (sources (onmessage1_double now m S1)))
       \<and> \<bar>nextStartTime (onmessage1_double now m S1) - (max (nextStartTime S1) now + d)\<bar>
           \<le> ulp (max (nextStartTime S1) now + d) / 2
       \<and> apart (sources (onmessage1_double now m S1))
       \<and> (sources S1 \<noteq> [] \<longrightarrow>
            nextStartTime S1 = scheduledEnd (last (sources S1))
            \<and> max (nextStartTime S1) now - scheduledEnd (last (sources S1))
                = max 0 (now - scheduledEnd (last (sources S1))))
       \<and> sources (onmessage3_double now m S3)
           = sources S3 @ [\<lparr>startAt = max (nextStartTime S3) now, duration = d,
                            playbackRate = audioSpeed S3, stoppedAt = None\<rparr>]
       \<and> 0 < audioSpeed S3
       \<and> nextStartTime (onmessage3_double now m S3)
           = binary64 (max (nextStartTime S3) now + binary64 (d / audioSpeed S3))
       \<and> nextStartTime (onmessage3_double now m S3)
           = scheduledEnd (last (sources (onmessage3_double now m S3)))
       \<and> \<bar>nextStartTime (onmessage3_double now m S3)
            - (max (nextStartTime S3) now + d / audioSpeed S3)\<bar>
           \<le> ulp (d / audioSpeed S3) / 2
             + ulp (max (nextStartTime S3) now + binary64 (d / audioSpeed S3)) / 2
       \<and> apart (sources (onmessage3_double now m S3))
       \<and> (sources S3 \<noteq> [] \<longrightarrow>
            nextStartTime S3 = scheduledEnd (last (sources S3))
            \<and> max (nextStartTime S3) now - scheduledEnd (last (sources S3))
                = max 0 (now - scheduledEnd (last (sources S3))))"
proof -
  from assms(5,6) have ni: "\<not> interrupted m" and now: "binary64 now = now"
    and d: "0 \<le> d" "binary64 d = d"
    by simp_all
  have all: "\<forall>e\<in>set (es @ [OnMessage now m]). steady e"
    using assms(4,5) by simp
  have i1: "onSchedule S1" unfolding S1_def by (rule onSchedule_run1 [OF assms(4)])
  have i3: "onSchedule S3" and v3: "0 < audioSpeed S3"
    unfolding S3_def using onSchedule_run3 [OF assms(4,3)] by simp_all
  have n1: "onSchedule (onmessage1_double now m S1)"
    using onSchedule_run1 [OF all, of v] by (simp add: S1_def)
  have n3: "onSchedule (onmessage3_double now m S3)"
    using onSchedule_run3 [OF all assms(3)] by (simp add: S3_def)
  from i1 have o1: "outputCtx S1" "outputNode S1" "\<not> ignoringNextTurn S1"
    by (simp_all add: onSchedule_def)
  from i3 have o3: "outputCtx S3" "outputNode S3" by (simp_all add: onSchedule_def)
  note e1 = enqueue1_double [OF o1 assms(6) ni, of now]
  note e3 = enqueue3_double [OF o3 assms(6) ni, of now]
  have a1: "sources (onmessage1_double now m S1)
           = sources S1 @ [\<lparr>startAt = max (nextStartTime S1) now, duration = d,
                            playbackRate = 1, stoppedAt = None\<rparr>]"
    by (rule e1(1))
  have b1: "nextStartTime (onmessage1_double now m S1) = binary64 (max (nextStartTime S1) now + d)"
    by (rule e1(2))
  have c1: "nextStartTime (onmessage1_double now m S1)
           = scheduledEnd (last (sources (onmessage1_double now m S1)))"
    using n1 by (simp add: onSchedule_def a1)
  have d1: "\<bar>nextStartTime (onmessage1_double now m S1) - (max (nextStartTime S1) now + d)\<bar>
           \<le> ulp (max (nextStartTime S1) now + d) / 2"
    unfolding b1 by (rule binary64_error)
  have f1: "apart (sources (onmessage1_double now m S1))"
    using n1 by (simp add: onSchedule_def)
  have g1: "sources S1 \<noteq> [] \<longrightarrow>
            nextStartTime S1 = scheduledEnd (last (sources S1))
            \<and> max (nextStartTime S1) now - scheduledEnd (last (sources S1))
                = max 0 (now - scheduledEnd (last (sources S1)))"
    using i1 by (simp add: onSchedule_def gap_before)
  have a3: "sources (onmessage3_double now m S3)
           = sources S3 @ [\<lparr>startAt = max (nextStartTime S3) now, duration = d,
                            playbackRate = audioSpeed S3, stoppedAt = None\<rparr>]"
    by (rule e3(1))
  have b3: "nextStartTime (onmessage3_double now m S3)
           = binary64 (max (nextStartTime S3) now + binary64 (d / audioSpeed S3))"
    by (rule e3(2))
  have c3: "nextStartTime (onmessage3_double now m S3)
           = scheduledEnd (last (sources (onmessage3_double now m S3)))"
    using n3 by (simp add: onSchedule_def a3)
  have d3: "\<bar>nextStartTime (onmessage3_double now m S3)
            - (max (nextStartTime S3) now + d / audioSpeed S3)\<bar>
           \<le> ulp (d / audioSpeed S3) / 2
             + ulp (max (nextStartTime S3) now + binary64 (d / audioSpeed S3)) / 2"
    unfolding b3 by (rule cursor_error)
  have f3: "apart (sources (onmessage3_double now m S3))"
    using n3 by (simp add: onSchedule_def)
  have g3: "sources S3 \<noteq> [] \<longrightarrow>
            nextStartTime S3 = scheduledEnd (last (sources S3))
            \<and> max (nextStartTime S3) now - scheduledEnd (last (sources S3))
                = max 0 (now - scheduledEnd (last (sources S3)))"
    using i3 by (simp add: onSchedule_def gap_before)
  from a1 b1 c1 d1 f1 g1 a3 v3 b3 c3 d3 f3 g3 show ?thesis by blast
qed

lemma slowedDown_next:
  "nextStartTime (onmessage1_double 1 (audioMsg 3) (run step1_double slowedDown (connected (3/2))))
     = 5"
  "nextStartTime (onmessage3_double 1 (audioMsg 3) (run step3_double slowedDown (connected (3/2))))
     = 4878899596318037 / 1125899906842624"
  by (simp_all add: slowedDown_def onmessage1_double_def onmessage3_double_def Let_def
      tail_quiet example_messages example_connected setSpeed_def binary64_examples)

lemma slowedDown_run:
  "sources (run step1_double slowedDown (connected (3/2)))
     = [\<lparr>startAt = 0, duration = 2, playbackRate = 1, stoppedAt = None\<rparr>]"
  "nextStartTime (run step1_double slowedDown (connected (3/2))) = 2"
  "sources (run step3_double slowedDown (connected (3/2)))
     = [\<lparr>startAt = 0, duration = 2, playbackRate = 3/2, stoppedAt = None\<rparr>]"
  "nextStartTime (run step3_double slowedDown (connected (3/2)))
     = 6004799503160661 / 4503599627370496"
  "audioSpeed (run step3_double slowedDown (connected (3/2))) = 1"
  by (simp_all add: slowedDown_def onmessage1_double_def onmessage3_double_def Let_def
      tail_quiet example_messages example_connected setSpeed_def binary64_examples)

theorem schedule_without_overlap_witness:
  "0 < (3/2 :: real)
   \<and> map steady (slowedDown @ [OnMessage 1 (audioMsg 3)]) = [True, True, True]
   \<and> audio (audioMsg 3) = Decoded 3
   \<and> finite64
        (nextStartTime (onmessage1_double 1 (audioMsg 3) (run step1_double slowedDown (connected (3/2)))))
   \<and> finite64
        (nextStartTime (onmessage3_double 1 (audioMsg 3) (run step3_double slowedDown (connected (3/2)))))
   \<and> map scheduled
        (sources (onmessage1_double 1 (audioMsg 3) (run step1_double slowedDown (connected (3/2)))))
       = [(0, 2, 1), (2, 3, 1)]
   \<and> nextStartTime (onmessage1_double 1 (audioMsg 3) (run step1_double slowedDown (connected (3/2))))
       = 5
   \<and> map scheduled
        (sources (onmessage3_double 1 (audioMsg 3) (run step3_double slowedDown (connected (3/2)))))
       = [(0, 2, 3/2), (6004799503160661 / 4503599627370496, 3, 1)]
   \<and> nextStartTime (onmessage3_double 1 (audioMsg 3) (run step3_double slowedDown (connected (3/2))))
       = 4878899596318037 / 1125899906842624
   \<and> apart (sources (onmessage3_double 1 (audioMsg 3) (run step3_double slowedDown (connected (3/2)))))
   \<and> max (nextStartTime (run step3_double slowedDown (connected (3/2)))) 1
        - scheduledEnd (last (sources (run step3_double slowedDown (connected (3/2))))) = 0"
proof -
  have h1: "0 < (3/2 :: real)" by simp
  have h2: "\<forall>e\<in>set slowedDown. steady e"
    by (simp add: slowedDown_def example_messages binary64_examples)
  have h3: "steady (OnMessage 1 (audioMsg 3))"
    by (simp add: example_messages binary64_examples)
  have h4: "audio (audioMsg 3) = Decoded 3" by (simp add: example_messages)
  have m: "map steady (slowedDown @ [OnMessage 1 (audioMsg 3)]) = [True, True, True]"
    by (simp add: slowedDown_def example_messages binary64_examples)
  have h5: "finite64
      (nextStartTime (onmessage1_double 1 (audioMsg 3) (run step1_double slowedDown (connected (3/2)))))"
    by (simp add: slowedDown_next finite64_def)
  have h6: "finite64
      (nextStartTime (onmessage3_double 1 (audioMsg 3) (run step3_double slowedDown (connected (3/2)))))"
    by (simp add: slowedDown_next finite64_def)
  show ?thesis
    using schedule_without_overlap [OF h1 h2 h3 h4 h5 h6] h4 h5 h6 m
    by (simp add: slowedDown_run scheduled_def scheduledEnd_def apart_def binary64_examples)
qed

end
